theory Spec2Isabelle
  imports Main "HOL-Library.Word" "HOL-Library.Sublist" "HOL-Library.Monad_Syntax"
begin

section \<open>Byte slices\<close>

text \<open>
  A Go \<^verbatim>\<open>[]byte\<close> is a list of 8-bit characters. Slice expressions and index expressions
  panic when they are out of range; the model returns \<open>None\<close> there.
\<close>

type_synonym bytes = string

definition slice :: "bytes \<Rightarrow> int \<Rightarrow> int \<Rightarrow> bytes option" where
  \<comment> \<open>\<^verbatim>\<open>s[a:b]\<close>\<close>
  "slice s a b =
     (if 0 \<le> a \<and> a \<le> b \<and> b \<le> int (length s)
      then Some (take (nat (b - a)) (drop (nat a) s)) else None)"

definition slice_from :: "bytes \<Rightarrow> int \<Rightarrow> bytes option" where
  \<comment> \<open>\<^verbatim>\<open>s[a:]\<close>\<close>
  "slice_from s a = slice s a (int (length s))"

definition byte_at :: "bytes \<Rightarrow> int \<Rightarrow> char option" where
  \<comment> \<open>\<^verbatim>\<open>s[i]\<close>\<close>
  "byte_at s i = (if 0 \<le> i \<and> i < int (length s) then Some (s ! nat i) else None)"

text \<open>
  \<^verbatim>\<open>bytes.Index(s, sep)\<close> of the Go standard library: the index of the first instance of
  \<open>sep\<close> in \<open>s\<close>, or \<open>-1\<close> when there is none (an empty \<open>sep\<close> is found at index 0).
\<close>

fun bytes_Index :: "bytes \<Rightarrow> bytes \<Rightarrow> int" where
  "bytes_Index [] sep = (if sep = [] then 0 else - 1)"
| "bytes_Index (c # s) sep =
     (if prefix sep (c # s) then 0
      else (let r = bytes_Index s sep in if r < 0 then - 1 else r + 1))"

section \<open>The tokenizer's regular expression\<close>

text \<open>
  \<^verbatim>\<open>regexp.MustCompile(`([^{]*)({{\.[^}]+}})*`)\<close>. Group 1 is a greedy run of bytes other
  than an opening brace. Group 2 is one placeholder: two opening braces and a dot, one or more
  bytes other than a closing brace, two closing braces; it is repeated greedily and, as in
  every Go regular expression, the capture keeps the span of the last repetition. Neither
  brace occurs inside a multi-byte UTF-8 sequence, so matching bytes and matching runes agree.

  \<open>match_field s\<close> is the length of one repetition of group 2 at the start of \<open>s\<close>. The
  character class cannot cross a closing brace, so the greedy run is the only candidate.
\<close>

definition match_field :: "bytes \<Rightarrow> nat option" where
  "match_field s =
     (if take 3 s = ''{{.'' then
        (let name = takeWhile (\<lambda>c. c \<noteq> CHR ''}'') (drop 3 s);
             rest = dropWhile (\<lambda>c. c \<noteq> CHR ''}'') (drop 3 s)
         in if name \<noteq> [] \<and> take 2 rest = ''}}'' then Some (length name + 5) else None)
      else None)"

lemma match_field_bounds:
  "match_field s = Some n \<Longrightarrow> 6 \<le> n \<and> n \<le> length s"
proof -
  assume a: "match_field s = Some n"
  let ?r = "drop 3 s"
  let ?name = "takeWhile (\<lambda>c. c \<noteq> CHR ''}'') ?r"
  let ?rest = "dropWhile (\<lambda>c. c \<noteq> CHR ''}'') ?r"
  from a have t3: "take 3 s = ''{{.''" and nm: "?name \<noteq> []" and t2: "take 2 ?rest = ''}}''"
    and n: "n = length ?name + 5"
    by (auto simp: match_field_def Let_def split: if_splits)
  from t3 have l3: "3 \<le> length s"
    by (metis length_take min.cobounded1 length_Cons list.size(3) numeral_3_eq_3)
  from t2 have l2: "2 \<le> length ?rest"
    by (metis length_take min.cobounded1 length_Cons list.size(3) numeral_2_eq_2)
  have "length ?name + length ?rest = length ?r"
    by (metis length_append takeWhile_dropWhile_id)
  with l2 l3 nm n show ?thesis
    by (cases ?name) auto
qed

function fields_star :: "bytes \<Rightarrow> nat \<Rightarrow> (nat \<times> nat) option \<Rightarrow> nat \<times> (nat \<times> nat) option"
  where
  "fields_star t p cap =
     (case match_field (drop p t) of
        None \<Rightarrow> (p, cap)
      | Some n \<Rightarrow> fields_star t (p + n) (Some (p, p + n)))"
  by pat_completeness auto
termination
proof (relation "measure (\<lambda>(t, p, cap). length t - p)")
  show "wf (measure (\<lambda>(t, p, cap). length t - p))" by simp
next
  fix t :: bytes and p :: nat and cap :: "(nat \<times> nat) option" and n :: nat
  assume "match_field (drop p t) = Some n"
  then have "6 \<le> n \<and> n \<le> length (drop p t)" by (rule match_field_bounds)
  then show "((t, p + n, Some (p, p + n)), (t, p, cap)) \<in> measure (\<lambda>(t, p, cap). length t - p)"
    by simp arith
qed

declare fields_star.simps [simp del]

text \<open>
  \<open>doExecute t pos\<close> is the leftmost match at or after \<open>pos\<close> as the six submatch indexes
  \<open>loc[0..5]\<close>. The expression matches the empty string, so the leftmost match starts at
  \<open>pos\<close> itself; group 1 always takes part, group 2 is \<open>-1, -1\<close> when it was not repeated.
\<close>

definition doExecute :: "bytes \<Rightarrow> nat \<Rightarrow> int list" where
  "doExecute t pos =
     (let g1e = pos + length (takeWhile (\<lambda>c. c \<noteq> CHR ''{'') (drop pos t));
          (e, cap) = fields_star t g1e None
      in [int pos, int e, int pos, int g1e,
          (case cap of None \<Rightarrow> - 1 | Some (a, b) \<Rightarrow> int a),
          (case cap of None \<Rightarrow> - 1 | Some (a, b) \<Rightarrow> int b)])"

text \<open>
  The loop of \<^verbatim>\<open>(*Regexp).allMatches\<close> behind \<^verbatim>\<open>FindAllSubmatchIndex(template, -1)\<close>:
  successive matches, where an empty match right after the previous match is dropped and the
  position then moves on by one rune (past the end when there is none); an empty match of
  this expression stands before an opening brace or at the end, so the rune is one byte. \<open>i\<close> counts the
  delivered matches against the limit \<open>n\<close>. A match starts at \<open>pos\<close> and never ends before
  it; the last branch is there to make the function total.
\<close>

function allMatches :: "bytes \<Rightarrow> nat \<Rightarrow> nat \<Rightarrow> nat \<Rightarrow> int \<Rightarrow> int list list" where
  "allMatches t n pos i prevMatchEnd =
     (if i < n \<and> pos \<le> length t then
        (let matches = doExecute t pos in
         if matches ! 1 = int pos then
           (let pos' = (if pos < length t then pos + 1 else length t + 1) in
            if matches ! 0 = prevMatchEnd
            then allMatches t n pos' i (matches ! 1)
            else matches # allMatches t n pos' (i + 1) (matches ! 1))
         else if int pos < matches ! 1
         then matches # allMatches t n (nat (matches ! 1)) (i + 1) (matches ! 1)
         else [])
      else [])"
  by pat_completeness auto
termination
  by (relation "measure (\<lambda>(t, n, pos, i, prevMatchEnd). length t + 1 - pos)") auto

declare allMatches.simps [simp del]

definition FindAllSubmatchIndex :: "bytes \<Rightarrow> int list list" where
  \<comment> \<open>a negative limit means \<open>len(b) + 1\<close>\<close>
  "FindAllSubmatchIndex t = allMatches t (length t + 1) 0 0 (- 1)"

section \<open>parseCustomTemplate\<close>

text \<open>The variables that the loop of \<^verbatim>\<open>parseCustomTemplate\<close> updates.\<close>

record parse_state =
  ps_orderedFields :: "string list"
  ps_templateFieldsMap :: "string \<rightharpoonup> bytes"
  ps_fieldPrefixBuffer :: bytes
  ps_fieldPrefixPreviousN :: int
  ps_trimTrailingTemplateN :: int

text \<open>One iteration of \<^verbatim>\<open>for i, loc := range allIndexes\<close>; \<open>n\<close> is \<open>len(allIndexes)\<close>.\<close>

definition parse_step :: "bytes \<Rightarrow> nat \<Rightarrow> nat \<Rightarrow> int list \<Rightarrow> parse_state \<Rightarrow> parse_state option"
  where
  "parse_step template n i loc st = do {
     fieldName \<leftarrow> (if loc ! 4 > - 1 \<and> loc ! 5 > - 1
                   then slice template (loc ! 4 + 3) (loc ! 5 - 2) else Some []);
     fieldPrefix \<leftarrow> (if loc ! 2 > - 1 \<and> loc ! 3 > - 1
                     then slice template (loc ! 2) (loc ! 3) else Some []);
     st' \<leftarrow>
       (if length fieldName = 0 then do {
          c \<leftarrow> byte_at template (ps_fieldPrefixPreviousN st);
          if c = CHR ''{'' then
            Some (st\<lparr>ps_fieldPrefixBuffer := ps_fieldPrefixBuffer st @ ''{''\<rparr>)
          else if int i = int n - 1 then do {
            rest \<leftarrow> slice_from template (ps_trimTrailingTemplateN st);
            Some (st\<lparr>ps_fieldPrefixBuffer := rest\<rparr>)
          } else do {
            rest \<leftarrow> slice_from template (ps_trimTrailingTemplateN st);
            let buf = ps_fieldPrefixBuffer st @ fieldPrefix;
            let fieldPrefixBufferIdx = bytes_Index rest buf;
            Some (st\<lparr>ps_fieldPrefixBuffer := buf,
                     ps_trimTrailingTemplateN :=
                       (if fieldPrefixBufferIdx > 0
                        then ps_trimTrailingTemplateN st + fieldPrefixBufferIdx
                        else ps_trimTrailingTemplateN st)\<rparr>)
          }
        } else
          Some (st\<lparr>ps_orderedFields := ps_orderedFields st @ [fieldName],
                   ps_templateFieldsMap :=
                     (ps_templateFieldsMap st)(fieldName \<mapsto> ps_fieldPrefixBuffer st @ fieldPrefix),
                   ps_fieldPrefixBuffer := [],
                   ps_trimTrailingTemplateN := loc ! 5\<rparr>));
     Some (st'\<lparr>ps_fieldPrefixPreviousN := loc ! 2\<rparr>)
   }"

fun parse_loop :: "bytes \<Rightarrow> nat \<Rightarrow> nat \<Rightarrow> int list list \<Rightarrow> parse_state \<Rightarrow> parse_state option"
  where
  "parse_loop template n i [] st = Some st"
| "parse_loop template n i (loc # locs) st =
     (case parse_step template n i loc st of
        None \<Rightarrow> None
      | Some st' \<Rightarrow> parse_loop template n (i + 1) locs st')"

text \<open>
  The result is \<open>None\<close> when the function panics, otherwise the three returned values; a
  \<^verbatim>\<open>nil\<close> slice is the empty list and a \<^verbatim>\<open>nil\<close> map the empty map.
\<close>

definition parseCustomTemplate :: "bytes \<Rightarrow> (string list \<times> (string \<rightharpoonup> bytes) \<times> bytes) option"
  where
  "parseCustomTemplate template =
     (if length template = 0 then Some ([], Map.empty, [])
      else
        (let allIndexes = FindAllSubmatchIndex template in
         case parse_loop template (length allIndexes) 0 allIndexes
                \<lparr>ps_orderedFields = [], ps_templateFieldsMap = Map.empty, ps_fieldPrefixBuffer = [],
                 ps_fieldPrefixPreviousN = 0, ps_trimTrailingTemplateN = 0\<rparr> of
           None \<Rightarrow> None
         | Some st \<Rightarrow> Some (ps_orderedFields st, ps_templateFieldsMap st, ps_fieldPrefixBuffer st)))"

section \<open>Errors, generator state and bound field functions\<close>

datatype error =
    EOF  \<comment> \<open>\<^verbatim>\<open>io.EOF\<close>\<close>
  | generateOnFieldNotInFieldsYaml
  | Failure string  \<comment> \<open>any other error value, by its message\<close>

text \<open>What a constructor does: it returns a generator, returns an error, or panics.\<close>

datatype 'a result = Ok 'a | Error error | Panic

text \<open>
  Modelled from the spec: the declaration of \<^verbatim>\<open>GenState\<close> and the function
  \<^verbatim>\<open>NewGenState\<close> are not in the two source files. The state has the event counter
  (the source compares it with a \<^verbatim>\<open>uint64\<close>; it starts at 0) and the two per-field caches,
  which \<^verbatim>\<open>NewGenState\<close> creates empty. \<open>'v\<close> is the type of the values of Go's \<^verbatim>\<open>any\<close>
  that fields produce.
\<close>

record 'v GenState =
  counter :: "64 word"
  prevCacheForDup :: "string \<rightharpoonup> 'v set"
  prevCacheCardinality :: "string \<rightharpoonup> 'v list"

definition NewGenState :: "'v GenState" where
  "NewGenState = \<lparr>counter = 0, prevCacheForDup = Map.empty, prevCacheCardinality = Map.empty\<rparr>"

text \<open>
  The functions that \<^verbatim>\<open>bindField\<close> stores in the field map are closures of the Field Binder,
  which is outside the two source files. They receive the \<^verbatim>\<open>*GenState\<close> (and the output
  buffer) and may change both; whatever else they read and change (the state of the random
  source above all) is the world \<open>'w\<close>, passed along explicitly. \<^verbatim>\<open>EmitF\<close> returns the
  value, \<^verbatim>\<open>emitFNotReturn\<close> writes it to the buffer and returns an error or \<^verbatim>\<open>nil\<close>.
  A value of the field map (\<^verbatim>\<open>map[string]any\<close>) is one or the other.
\<close>

type_synonym ('v, 'w) EmitF = "'v GenState \<Rightarrow> 'w \<Rightarrow> 'v \<times> 'v GenState \<times> 'w"

type_synonym ('v, 'w) emitFNotReturn =
  "'v GenState \<Rightarrow> bytes \<Rightarrow> 'w \<Rightarrow> error option \<times> 'v GenState \<times> bytes \<times> 'w"

datatype ('v, 'w) bound =
    BoundEmitF "('v, 'w) EmitF"
  | BoundEmitFNotReturn "('v, 'w) emitFNotReturn"

type_synonym ('v, 'w) fieldMap = "string \<rightharpoonup> ('v, 'w) bound"

text \<open>
  Of a field definition (\<^verbatim>\<open>Field\<close>, declared outside the two source files) the
  constructors read the name and the type; what else it holds is for \<^verbatim>\<open>bindField\<close>.
\<close>

record Field =
  Name :: string
  Type :: string

text \<open>
  \<^verbatim>\<open>bindField(cfg, field, fieldMap, withReturn)\<close> is a parameter of the model: it returns an
  error (\<open>Inl\<close>) or the field map with its additions.
\<close>

type_synonym ('c, 'v, 'w) bindField =
  "'c \<Rightarrow> Field \<Rightarrow> ('v, 'w) fieldMap \<Rightarrow> bool \<Rightarrow> error + ('v, 'w) fieldMap"

section \<open>The generator with a custom template\<close>

record ('v, 'w) emitter =
  fieldName :: string
  fieldType :: string
  emitFunc :: "('v, 'w) emitFNotReturn"
  prefixBytes :: bytes

text \<open>
  \<open>ct_state\<close> is the \<^verbatim>\<open>GenState\<close> that the field \<^verbatim>\<open>state\<close> points to: only the generator
  holds that pointer, so the record carries the value and \<^verbatim>\<open>Emit\<close> returns the record updated.
\<close>

record ('v, 'w) GeneratorWithCustomTemplate =
  ct_totEvents :: "64 word"
  ct_emitters :: "('v, 'w) emitter list"
  ct_trailingTemplate :: bytes
  ct_state :: "'v GenState"

text \<open>The state that the estimator makes for one emitter (lines 94 to 96).\<close>

definition isolatedState :: "string \<Rightarrow> 'v GenState" where
  "isolatedState field =
     NewGenState\<lparr>prevCacheForDup := (prevCacheForDup NewGenState)(field \<mapsto> {}),
                 prevCacheCardinality := (prevCacheCardinality NewGenState)(field \<mapsto> [])\<rparr>"

text \<open>The loop over the emitters in \<^verbatim>\<open>calculateTotEventsWithCustomTemplate\<close>.\<close>

fun sampleEmitters ::
  "('v, 'w) emitter list \<Rightarrow> bytes \<Rightarrow> 'w \<Rightarrow> error option \<times> bytes \<times> 'w" where
  "sampleEmitters [] buf w = (None, buf, w)"
| "sampleEmitters (e # es) buf w =
     (case emitFunc e (isolatedState (fieldName e)) (buf @ prefixBytes e) w of
        (Some err, state', buf', w') \<Rightarrow> (Some err, buf', w')
      | (None, state', buf', w') \<Rightarrow> sampleEmitters es buf' w')"

text \<open>
  The arithmetic that both estimators end with, on the length of the sample
  (\<^verbatim>\<open>uint64(buf.Len())\<close>).
\<close>

definition totEventsOfSize :: "64 word \<Rightarrow> nat \<Rightarrow> 64 word" where
  "totEventsOfSize totSize len =
     (let singleEventSize = (word_of_nat len :: 64 word) in
      if singleEventSize = 0 then 1
      else (let totEvents = totSize div singleEventSize in
            if totEvents < 1 then 1 else totEvents))"

definition calculateTotEventsWithCustomTemplate ::
  "64 word \<Rightarrow> ('v, 'w) emitter list \<Rightarrow> bytes \<Rightarrow> 'w \<Rightarrow> (error + 64 word) \<times> 'w" where
  "calculateTotEventsWithCustomTemplate totSize emitters trailingTemplate w =
     (if totSize = 0 then (Inr 0, w)
      else
        (case sampleEmitters emitters [] w of
           (Some err, buf, w') \<Rightarrow> (Inl err, w')
         | (None, buf, w') \<Rightarrow> (Inr (totEventsOfSize totSize (length (buf @ trailingTemplate))), w')))"

text \<open>
  The first loop of the constructor: bind every field and give it its two empty caches.
\<close>

fun bindFieldsCustom ::
  "('c, 'v, 'w) bindField \<Rightarrow> 'c \<Rightarrow> Field list \<Rightarrow>
   ('v, 'w) fieldMap \<times> (string \<rightharpoonup> string) \<times> 'v GenState \<Rightarrow>
   error + (('v, 'w) fieldMap \<times> (string \<rightharpoonup> string) \<times> 'v GenState)" where
  "bindFieldsCustom bindField cfg [] acc = Inr acc"
| "bindFieldsCustom bindField cfg (field # rest) (fieldMap, fieldTypes, state) =
     (case bindField cfg field fieldMap False of
        Inl err \<Rightarrow> Inl err
      | Inr fieldMap' \<Rightarrow>
          bindFieldsCustom bindField cfg rest
            (fieldMap', fieldTypes(Name field \<mapsto> Type field),
             state\<lparr>prevCacheForDup := (prevCacheForDup state)(Name field \<mapsto> {}),
                   prevCacheCardinality := (prevCacheCardinality state)(Name field \<mapsto> [])\<rparr>))"

text \<open>
  The second loop: one emitter for each placeholder. The type assertion
  \<^verbatim>\<open>fieldMap[fieldName].(emitFNotReturn)\<close> has no second result, so it panics when the
  field map has no such entry or one of the other type; that is \<open>None\<close>. A missing entry of
  the two other maps is the zero value.
\<close>

fun rollEmitters ::
  "string list \<Rightarrow> ('v, 'w) fieldMap \<Rightarrow> (string \<rightharpoonup> string) \<Rightarrow> (string \<rightharpoonup> bytes) \<Rightarrow>
   ('v, 'w) emitter list option" where
  "rollEmitters [] fieldMap fieldTypes templateFieldsMap = Some []"
| "rollEmitters (name # names) fieldMap fieldTypes templateFieldsMap =
     (case fieldMap name of
        Some (BoundEmitFNotReturn f) \<Rightarrow>
          (case rollEmitters names fieldMap fieldTypes templateFieldsMap of
             None \<Rightarrow> None
           | Some es \<Rightarrow>
               Some (\<lparr>fieldName = name,
                      fieldType = (case fieldTypes name of None \<Rightarrow> [] | Some ty \<Rightarrow> ty),
                      emitFunc = f,
                      prefixBytes = (case templateFieldsMap name of None \<Rightarrow> [] | Some b \<Rightarrow> b)\<rparr>
                     # es))
      | _ \<Rightarrow> None)"

definition NewGeneratorWithCustomTemplate ::
  "('c, 'v, 'w) bindField \<Rightarrow> bytes \<Rightarrow> 'c \<Rightarrow> Field list \<Rightarrow> 64 word \<Rightarrow> 'w \<Rightarrow>
   ('v, 'w) GeneratorWithCustomTemplate result \<times> 'w" where
  "NewGeneratorWithCustomTemplate bindField template cfg fieldDefs totSize w =
     (case parseCustomTemplate template of
        None \<Rightarrow> (Panic, w)
      | Some (orderedFields, templateFieldsMap, trailingTemplate) \<Rightarrow>
          (case bindFieldsCustom bindField cfg fieldDefs (Map.empty, Map.empty, NewGenState) of
             Inl err \<Rightarrow> (Error err, w)
           | Inr (fieldMap, fieldTypes, state) \<Rightarrow>
               (case rollEmitters orderedFields fieldMap fieldTypes templateFieldsMap of
                  None \<Rightarrow> (Panic, w)
                | Some emitters \<Rightarrow>
                    (case calculateTotEventsWithCustomTemplate totSize emitters trailingTemplate w of
                       (Inl err, w') \<Rightarrow> (Error err, w')
                     | (Inr totEvents, w') \<Rightarrow>
                         (Ok \<lparr>ct_totEvents = totEvents, ct_emitters = emitters,
                              ct_trailingTemplate = trailingTemplate, ct_state = state\<rparr>, w')))))"

text \<open>The loop over the emitters in \<^verbatim>\<open>emit\<close>.\<close>

fun runEmitters ::
  "('v, 'w) emitter list \<Rightarrow> 'v GenState \<Rightarrow> bytes \<Rightarrow> 'w \<Rightarrow>
   error option \<times> 'v GenState \<times> bytes \<times> 'w" where
  "runEmitters [] state buf w = (None, state, buf, w)"
| "runEmitters (e # es) state buf w =
     (case emitFunc e state (buf @ prefixBytes e) w of
        (Some err, state', buf', w') \<Rightarrow> (Some err, state', buf', w')
      | (None, state', buf', w') \<Rightarrow> runEmitters es state' buf' w')"

definition emitCustom ::
  "('v, 'w) GeneratorWithCustomTemplate \<Rightarrow> 'v GenState \<Rightarrow> bytes \<Rightarrow> 'w \<Rightarrow>
   error option \<times> 'v GenState \<times> bytes \<times> 'w" where
  "emitCustom gen state buf w =
     (if ct_totEvents gen = 0 \<or> counter state < ct_totEvents gen then
        (case runEmitters (ct_emitters gen) state buf w of
           (Some err, state', buf', w') \<Rightarrow> (Some err, state', buf', w')
         | (None, state', buf', w') \<Rightarrow> (None, state', buf' @ ct_trailingTemplate gen, w'))
      else (Some EOF, state, buf, w))"

text \<open>
  \<^verbatim>\<open>Emit(state, buf)\<close>. The parameter \<open>state\<close> is the caller's pointer (\<open>None\<close> for
  \<^verbatim>\<open>nil\<close>, otherwise what it points to); the first statement overwrites the variable with
  \<^verbatim>\<open>gen.state\<close> before anything reads it.
\<close>

definition EmitCustom ::
  "('v, 'w) GeneratorWithCustomTemplate \<Rightarrow> 'v GenState option \<Rightarrow> bytes \<Rightarrow> 'w \<Rightarrow>
   error option \<times> ('v, 'w) GeneratorWithCustomTemplate \<times> bytes \<times> 'w" where
  "EmitCustom gen state buf w =
     (let state = ct_state gen in
      case emitCustom gen state buf w of
        (Some err, state', buf', w') \<Rightarrow> (Some err, gen\<lparr>ct_state := state'\<rparr>, buf', w')
      | (None, state', buf', w') \<Rightarrow>
          (None, gen\<lparr>ct_state := state'\<lparr>counter := counter state' + 1\<rparr>\<rparr>, buf', w'))"

section \<open>The template engine and its function map\<close>

text \<open>
  Go's \<^verbatim>\<open>text/template\<close> is a library, not part of the repository. The model keeps of a
  parsed template what its execution does to the program: it writes text to the buffer, calls
  \<^verbatim>\<open>generate\<close> and \<^verbatim>\<open>awsAZFromRegion\<close> of the function map and goes on according to what
  they return, ends, or fails with an error. The functions of sprig are taken as pure; they
  are inside the continuations.
\<close>

datatype 'v Template =
    TDone
  | TText bytes "'v Template"
  | TGenerate string "'v option \<Rightarrow> 'v Template"
  | TAwsAZFromRegion string "string \<Rightarrow> 'v Template"
  | TFail error

text \<open>
  The closures of the function map share three things: the \<^verbatim>\<open>GenState\<close> that the
  constructor's \<^verbatim>\<open>state\<close> points to, the channel \<^verbatim>\<open>errChan\<close>, and the world. Nothing is
  ever sent on the channel, so all there is to it is whether it has been closed: a receive in
  a \<^verbatim>\<open>select\<close> with a \<^verbatim>\<open>default\<close> is taken exactly when it is closed, and closing it a second
  time panics.
\<close>

type_synonym ('v, 'w) shared = "'v GenState \<times> bool \<times> 'w"

record ('v, 'w) FuncMap =
  fm_generate :: "string \<Rightarrow> ('v, 'w) shared \<Rightarrow> 'v option result \<times> ('v, 'w) shared"
  fm_awsAZFromRegion :: "string \<Rightarrow> 'w \<Rightarrow> string result \<times> 'w"

text \<open>
  \<^verbatim>\<open>Execute\<close> writes to the buffer as it goes. A panic inside a called function is recovered
  by the engine and comes back as the error of \<^verbatim>\<open>Execute\<close>.
\<close>

primrec Execute ::
  "'v Template \<Rightarrow> ('v, 'w) FuncMap \<Rightarrow> bytes \<Rightarrow> ('v, 'w) shared \<Rightarrow>
   error option \<times> bytes \<times> ('v, 'w) shared" where
  "Execute TDone funcs buf \<sigma> = (None, buf, \<sigma>)"
| "Execute (TText b k) funcs buf \<sigma> = Execute k funcs (buf @ b) \<sigma>"
| "Execute (TGenerate field k) funcs buf \<sigma> =
     (case fm_generate funcs field \<sigma> of
        (Ok v, \<sigma>') \<Rightarrow> Execute (k v) funcs buf \<sigma>'
      | (_, \<sigma>') \<Rightarrow> (Some (Failure ''error calling generate''), buf, \<sigma>'))"
| "Execute (TAwsAZFromRegion region k) funcs buf \<sigma> =
     (case \<sigma> of (state, closed, w) \<Rightarrow>
        (case fm_awsAZFromRegion funcs region w of
           (Ok az, w') \<Rightarrow> Execute (k az) funcs buf (state, closed, w')
         | (_, w') \<Rightarrow> (Some (Failure ''error calling awsAZFromRegion''), buf, (state, closed, w'))))"
| "Execute (TFail err) funcs buf \<sigma> = (Some err, buf, \<sigma>)"

section \<open>The generator with a text template\<close>

definition awsAZs :: "(string \<times> string list) list" where
  "awsAZs =
     [(''ap-east-1'', [''ap-east-1a'', ''ap-east-1b'', ''ap-east-1c'']),
      (''ap-northeast-1'', [''ap-northeast-1a'', ''ap-northeast-1c'', ''ap-northeast-1d'']),
      (''ap-northeast-2'',
         [''ap-northeast-2a'', ''ap-northeast-2b'', ''ap-northeast-2c'', ''ap-northeast-2d'']),
      (''ap-northeast-3'', [''ap-northeast-3a'', ''ap-northeast-3b'', ''ap-northeast-3c'']),
      (''ap-south-1'', [''ap-south-1a'', ''ap-south-1b'', ''ap-south-1c'']),
      (''ap-southeast-1'', [''ap-southeast-1a'', ''ap-southeast-1b'', ''ap-southeast-1c'']),
      (''ap-southeast-2'', [''ap-southeast-2a'', ''ap-southeast-2b'', ''ap-southeast-2c'']),
      (''ca-central-1'', [''ca-central-1a'', ''ca-central-1b'', ''ca-central-1d'']),
      (''eu-central-1'', [''eu-central-1a'', ''eu-central-1b'', ''eu-central-1c'']),
      (''eu-north-1'', [''eu-north-1a'', ''eu-north-1b'', ''eu-north-1c'']),
      (''eu-west-1'', [''eu-west-1a'', ''eu-west-1b'', ''eu-west-1c'']),
      (''eu-west-2'', [''eu-west-2a'', ''eu-west-2b'', ''eu-west-2c'']),
      (''eu-west-3'', [''eu-west-3a'', ''eu-west-3b'', ''eu-west-3c'']),
      (''me-south-1'', [''me-south-1a'', ''me-south-1b'', ''me-south-1c'']),
      (''sa-east-1'', [''sa-east-1a'', ''sa-east-1b'', ''sa-east-1c'']),
      (''us-east-1'',
         [''us-east-1a'', ''us-east-1b'', ''us-east-1c'', ''us-east-1d'', ''us-east-1e'',
          ''us-east-1f'']),
      (''us-east-2'', [''us-east-2a'', ''us-east-2b'', ''us-east-2c'']),
      (''us-west-1'', [''us-west-1a'', ''us-west-1b'']),
      (''us-west-2'', [''us-west-2a'', ''us-west-2b'', ''us-west-2c'', ''us-west-2d''])]"

text \<open>
  \<^verbatim>\<open>templateFns["awsAZFromRegion"]\<close>. \<open>Intn n\<close> stands for \<^verbatim>\<open>rand.Intn(n)\<close>, which draws
  from the random source of the process (part of the world) a number below \<open>n\<close>; an index out
  of range would panic.
\<close>

definition awsAZFromRegion ::
  "(nat \<Rightarrow> 'w \<Rightarrow> nat \<times> 'w) \<Rightarrow> string \<Rightarrow> 'w \<Rightarrow> string result \<times> 'w" where
  "awsAZFromRegion Intn region w =
     (case map_of awsAZs region of
        None \<Rightarrow> (Ok ''NoAZ'', w)
      | Some azs \<Rightarrow>
          (case Intn (length azs) w of
             (i, w') \<Rightarrow> if i < length azs then (Ok (azs ! i), w') else (Panic, w')))"

text \<open>
  \<^verbatim>\<open>templateFns["generate"]\<close> of the constructor: the bound function runs on the run's
  state; when the field map has no \<^verbatim>\<open>EmitF\<close> for the name, the closure closes \<^verbatim>\<open>errChan\<close>
  and returns \<^verbatim>\<open>nil\<close>.
\<close>

definition generate ::
  "('v, 'w) fieldMap \<Rightarrow> string \<Rightarrow> ('v, 'w) shared \<Rightarrow> 'v option result \<times> ('v, 'w) shared" where
  "generate fieldMap field \<sigma> =
     (case \<sigma> of (state, closed, w) \<Rightarrow>
        (case fieldMap field of
           Some (BoundEmitF bindF) \<Rightarrow>
             (case bindF state w of (v, state', w') \<Rightarrow> (Ok (Some v), (state', closed, w')))
         | _ \<Rightarrow> if closed then (Panic, \<sigma>) else (Ok None, (state, True, w))))"

text \<open>
  \<^verbatim>\<open>tempTemplateFns["generate"]\<close> of the estimator: the same, but the bound function runs on
  a state made for this one call, which is dropped afterwards.
\<close>

definition generateEstimate ::
  "('v, 'w) fieldMap \<Rightarrow> string \<Rightarrow> ('v, 'w) shared \<Rightarrow> 'v option result \<times> ('v, 'w) shared" where
  "generateEstimate fieldMap field \<sigma> =
     (case \<sigma> of (runState, closed, w) \<Rightarrow>
        (let state = isolatedState field in
         case fieldMap field of
           Some (BoundEmitF bindF) \<Rightarrow>
             (case bindF state w of (v, state', w') \<Rightarrow> (Ok (Some v), (runState, closed, w')))
         | _ \<Rightarrow> if closed then (Panic, \<sigma>) else (Ok None, (runState, True, w))))"

text \<open>
  \<open>Parse name text\<close> stands for \<^verbatim>\<open>template.New(name).Option("missingkey=error")\<close> followed
  by \<^verbatim>\<open>Funcs(...).Parse(text)\<close>: an error or the parsed template. The channel parameter
  \<^verbatim>\<open>errChan\<close> is the second component of \<open>\<sigma>\<close>.

  The estimator fills \<^verbatim>\<open>tempTemplateFns\<close> and then parses with \<^verbatim>\<open>t.Funcs(templateFns)\<close>, so
  the sample is executed with the function map it was given.
\<close>

definition calculateTotEventsWithTextTemplate ::
  "(string \<Rightarrow> bytes \<Rightarrow> error + 'v Template) \<Rightarrow> 64 word \<Rightarrow> ('v, 'w) fieldMap \<Rightarrow> bytes \<Rightarrow>
   ('v, 'w) FuncMap \<Rightarrow> ('v, 'w) shared \<Rightarrow> (error + 64 word) \<times> ('v, 'w) shared" where
  "calculateTotEventsWithTextTemplate Parse totSize fieldMap tpl templateFns \<sigma> =
     (if totSize = 0 then (Inr 0, \<sigma>)
      else
        (let tempTemplateFns = templateFns\<lparr>fm_generate := generateEstimate fieldMap\<rparr> in
         case \<sigma> of (state, closed, w) \<Rightarrow>
           if closed then (Inl generateOnFieldNotInFieldsYaml, \<sigma>)
           else
             (case Parse ''estimate_tot_events'' tpl of
                Inl err \<Rightarrow> (Inl err, \<sigma>)
              | Inr parsedTpl \<Rightarrow>
                  (case Execute parsedTpl templateFns [] \<sigma> of
                     (Some err, buf, \<sigma>') \<Rightarrow> (Inl err, \<sigma>')
                   | (None, buf, \<sigma>') \<Rightarrow> (Inr (totEventsOfSize totSize (length buf)), \<sigma>')))))"

text \<open>
  \<open>tt_tpl\<close> and \<open>tt_funcs\<close> together are the field \<^verbatim>\<open>tpl\<close>: the parsed template and the
  function map attached to it. \<open>tt_state\<close> is what \<^verbatim>\<open>state\<close> points to and \<open>tt_errChan\<close>
  says whether \<^verbatim>\<open>errChan\<close> is closed.
\<close>

record ('v, 'w) GeneratorWithTextTemplate =
  tt_tpl :: "'v Template"
  tt_funcs :: "('v, 'w) FuncMap"
  tt_state :: "'v GenState"
  tt_errChan :: bool
  tt_totEvents :: "64 word"

fun bindFieldsText ::
  "('c, 'v, 'w) bindField \<Rightarrow> 'c \<Rightarrow> Field list \<Rightarrow> ('v, 'w) fieldMap \<times> 'v GenState \<Rightarrow>
   error + (('v, 'w) fieldMap \<times> 'v GenState)" where
  "bindFieldsText bindField cfg [] acc = Inr acc"
| "bindFieldsText bindField cfg (field # rest) (fieldMap, state) =
     (case bindField cfg field fieldMap True of
        Inl err \<Rightarrow> Inl err
      | Inr fieldMap' \<Rightarrow>
          bindFieldsText bindField cfg rest
            (fieldMap',
             state\<lparr>prevCacheForDup := (prevCacheForDup state)(Name field \<mapsto> {}),
                   prevCacheCardinality := (prevCacheCardinality state)(Name field \<mapsto> [])\<rparr>))"

definition NewGeneratorWithTextTemplate ::
  "('c, 'v, 'w) bindField \<Rightarrow> (string \<Rightarrow> bytes \<Rightarrow> error + 'v Template) \<Rightarrow>
   (nat \<Rightarrow> 'w \<Rightarrow> nat \<times> 'w) \<Rightarrow> bytes \<Rightarrow> 'c \<Rightarrow> Field list \<Rightarrow> 64 word \<Rightarrow> 'w \<Rightarrow>
   ('v, 'w) GeneratorWithTextTemplate result \<times> 'w" where
  "NewGeneratorWithTextTemplate bindField Parse Intn tpl cfg fieldDefs totSize w =
     (case bindFieldsText bindField cfg fieldDefs (Map.empty, NewGenState) of
        Inl err \<Rightarrow> (Error err, w)
      | Inr (fieldMap, state) \<Rightarrow>
          (let errChan = False;
               templateFns = \<lparr>fm_generate = generate fieldMap,
                              fm_awsAZFromRegion = awsAZFromRegion Intn\<rparr>
           in case calculateTotEventsWithTextTemplate Parse totSize fieldMap tpl templateFns
                     (state, errChan, w) of
                (Inl err, (state', closed', w')) \<Rightarrow> (Error err, w')
              | (Inr totEvents, (state', closed', w')) \<Rightarrow>
                  (case Parse ''generator'' tpl of
                     Inl err \<Rightarrow> (Error err, w')
                   | Inr parsedTpl \<Rightarrow>
                       (Ok \<lparr>tt_tpl = parsedTpl, tt_funcs = templateFns, tt_state = state',
                            tt_errChan = closed', tt_totEvents = totEvents\<rparr>, w'))))"

definition emitText ::
  "('v, 'w) GeneratorWithTextTemplate \<Rightarrow> 'v GenState \<Rightarrow> bytes \<Rightarrow> 'w \<Rightarrow>
   error option \<times> bytes \<times> ('v, 'w) shared" where
  "emitText gen state buf w =
     (if tt_totEvents gen = 0 \<or> counter state < tt_totEvents gen then
        (if tt_errChan gen then
           (Some generateOnFieldNotInFieldsYaml, buf, (state, tt_errChan gen, w))
         else Execute (tt_tpl gen) (tt_funcs gen) buf (state, tt_errChan gen, w))
      else (Some EOF, buf, (state, tt_errChan gen, w)))"

definition EmitText ::
  "('v, 'w) GeneratorWithTextTemplate \<Rightarrow> 'v GenState option \<Rightarrow> bytes \<Rightarrow> 'w \<Rightarrow>
   error option \<times> ('v, 'w) GeneratorWithTextTemplate \<times> bytes \<times> 'w" where
  "EmitText gen state buf w =
     (let state = tt_state gen in
      case emitText gen state buf w of
        (Some err, buf', (state', closed', w')) \<Rightarrow>
          (Some err, gen\<lparr>tt_state := state', tt_errChan := closed'\<rparr>, buf', w')
      | (None, buf', (state', closed', w')) \<Rightarrow>
          (None, gen\<lparr>tt_state := state'\<lparr>counter := counter state' + 1\<rparr>, tt_errChan := closed'\<rparr>,
           buf', w'))"

section \<open>Calling Emit repeatedly\<close>

text \<open>
  The generator and the world after the first \<open>k\<close> calls of \<^verbatim>\<open>Emit\<close>, whatever they
  returned; \<open>bufs i\<close> is the buffer that the caller passes to call number \<open>i\<close>, counted
  from 0.
\<close>

fun afterEmitsCustom ::
  "nat \<Rightarrow> ('v, 'w) GeneratorWithCustomTemplate \<Rightarrow> (nat \<Rightarrow> bytes) \<Rightarrow> 'w \<Rightarrow>
   ('v, 'w) GeneratorWithCustomTemplate \<times> 'w" where
  "afterEmitsCustom 0 gen bufs w = (gen, w)"
| "afterEmitsCustom (Suc k) gen bufs w =
     (case afterEmitsCustom k gen bufs w of
        (g, w') \<Rightarrow> (case EmitCustom g None (bufs k) w' of (err, g', buf', w'') \<Rightarrow> (g', w'')))"

fun afterEmitsText ::
  "nat \<Rightarrow> ('v, 'w) GeneratorWithTextTemplate \<Rightarrow> (nat \<Rightarrow> bytes) \<Rightarrow> 'w \<Rightarrow>
   ('v, 'w) GeneratorWithTextTemplate \<times> 'w" where
  "afterEmitsText 0 gen bufs w = (gen, w)"
| "afterEmitsText (Suc k) gen bufs w =
     (case afterEmitsText k gen bufs w of
        (g, w') \<Rightarrow> (case EmitText g None (bufs k) w' of (err, g', buf', w'') \<Rightarrow> (g', w'')))"

text \<open>
  The bytes of one event. With a custom template: the prefix of each emitter followed by
  what its emit function writes, in the order of the emitters, each function running on the
  state and the world that the one before it left, and the trailing literal at the end. With
  a text template: what the execution of the parsed template writes.
\<close>

fun eventBytes ::
  "('v, 'w) emitter list \<Rightarrow> bytes \<Rightarrow> 'v GenState \<Rightarrow> 'w \<Rightarrow> bytes" where
  "eventBytes [] trailing state w = trailing"
| "eventBytes (e # es) trailing state w =
     (case emitFunc e state [] w of
        (err, state', out, w') \<Rightarrow> prefixBytes e @ out @ eventBytes es trailing state' w')"

definition eventBytesText ::
  "'v Template \<Rightarrow> ('v, 'w) FuncMap \<Rightarrow> ('v, 'w) shared \<Rightarrow> bytes" where
  "eventBytesText t funcs \<sigma> = fst (snd (Execute t funcs [] \<sigma>))"

text \<open>
  What it means that every render of an event succeeds. For the emitters: each emit function
  returns no error, whatever the state, the buffer and the world; being a function of the
  Field Binder it also leaves the counter alone and appends what it writes to the buffer,
  whatever the buffer holds. For a parsed template: its execution returns no error, does not
  trip the unresolved-field flag, and the bound functions it calls leave the counter alone.
\<close>

abbreviation emittersOK :: "('v, 'w) emitter list \<Rightarrow> bool" where
  "emittersOK es \<equiv>
     \<forall>e \<in> set es. \<forall>state buf w.
        case emitFunc e state [] w of
          (err, state', out, w') \<Rightarrow>
            err = None \<and> counter state' = counter state
            \<and> emitFunc e state buf w = (None, state', buf @ out, w')"

abbreviation rendersOK :: "'v Template \<Rightarrow> ('v, 'w) FuncMap \<Rightarrow> bool" where
  "rendersOK t funcs \<equiv>
     \<forall>buf state w.
        case Execute t funcs buf (state, False, w) of
          (err, buf', (state', closed', w')) \<Rightarrow>
            err = None \<and> \<not> closed' \<and> counter state' = counter state"

section \<open>The estimator as the specification words it\<close>

text \<open>
  The event count of the specification, on natural numbers: 0 for a target of 0, 1 for an
  empty sample, otherwise the floor of the quotient and at least 1.
\<close>

definition estimate_spec :: "nat \<Rightarrow> nat \<Rightarrow> nat" where
  "estimate_spec targetTotalBytes sampleByteLength =
     (if targetTotalBytes = 0 then 0
      else if sampleByteLength = 0 then 1
      else max 1 (targetTotalBytes div sampleByteLength))"

section \<open>Example inputs\<close>

text \<open>
  A field binder whose fields of every name produce the value \<^verbatim>\<open>v\<close> and record it in the
  cardinality cache, as a field of bounded cardinality does. Values are strings and the world
  is the position of the random source, a number.
\<close>

definition ex_remember :: "string \<Rightarrow> string \<Rightarrow> string GenState \<Rightarrow> string GenState" where
  "ex_remember name v state =
     state\<lparr>prevCacheCardinality :=
             (prevCacheCardinality state)
               (name \<mapsto> (case prevCacheCardinality state name of None \<Rightarrow> [] | Some vs \<Rightarrow> vs) @ [v])\<rparr>"

definition ex_EmitF :: "string \<Rightarrow> (string, nat) EmitF" where
  "ex_EmitF name state w = (''v'', ex_remember name ''v'' state, w)"

definition ex_emitFNotReturn :: "string \<Rightarrow> (string, nat) emitFNotReturn" where
  "ex_emitFNotReturn name state buf w = (None, ex_remember name ''v'' state, buf @ ''v'', w)"

definition ex_bindField :: "(unit, string, nat) bindField" where
  "ex_bindField cfg field fieldMap withReturn =
     Inr (fieldMap(Name field \<mapsto>
            (if withReturn then BoundEmitF (ex_EmitF (Name field))
             else BoundEmitFNotReturn (ex_emitFNotReturn (Name field)))))"

definition ex_field :: Field where
  "ex_field = \<lparr>Name = ''f'', Type = ''keyword''\<rparr>"

text \<open>
  Three template texts and what the engine makes of them. The engine prints the \<^verbatim>\<open>nil\<close>
  that \<^verbatim>\<open>generate\<close> returns for an unknown field as \<^verbatim>\<open><no value>\<close>. Every availability
  zone of a region has the same length, so the third template branches on the zone.
\<close>

definition ex_tpl_f :: bytes where
  \<open>ex_tpl_f = ''{{generate "f"}}''\<close>

definition ex_tpl_nosuch :: bytes where
  \<open>ex_tpl_nosuch = ''{{generate "nosuch"}}''\<close>

definition ex_tpl_zone :: bytes where
  \<open>ex_tpl_zone = ''{{if eq (awsAZFromRegion "us-west-1") "us-west-1a"}}first zone{{end}}.''\<close>

definition ex_printValue :: "string option \<Rightarrow> string Template" where
  "ex_printValue v = TText (case v of None \<Rightarrow> ''<no value>'' | Some s \<Rightarrow> s) TDone"

definition ex_zoneBranch :: "string \<Rightarrow> string Template" where
  "ex_zoneBranch az =
     (if az = ''us-west-1a'' then TText ''first zone'' (TText ''.'' TDone) else TText ''.'' TDone)"

definition ex_Parse :: "string \<Rightarrow> bytes \<Rightarrow> error + string Template" where
  "ex_Parse name text =
     (if text = ex_tpl_f then Inr (TGenerate ''f'' ex_printValue)
      else if text = ex_tpl_nosuch then Inr (TGenerate ''nosuch'' ex_printValue)
      else if text = ex_tpl_zone then Inr (TAwsAZFromRegion ''us-west-1'' ex_zoneBranch)
      else Inl (Failure ''template: not one of the examples''))"

text \<open>A random source that deals 0, 1, 2, ... reduced below the bound.\<close>

definition ex_Intn :: "nat \<Rightarrow> nat \<Rightarrow> nat \<times> nat" where
  "ex_Intn n w = (w mod n, w + 1)"

definition ex_funcs :: "(string, nat) fieldMap \<Rightarrow> (string, nat) FuncMap" where
  "ex_funcs fieldMap =
     \<lparr>fm_generate = generate fieldMap, fm_awsAZFromRegion = awsAZFromRegion ex_Intn\<rparr>"

text \<open>
  The generators that the constructors return for the template \<^verbatim>\<open>a{{.f}}b\<close> with a target
  of 9 bytes and for the first text template with a target of 3 bytes, after \<open>n\<close> events.
  The second starts with the value of the sample in its cache.
\<close>

definition ex_customGen :: "nat \<Rightarrow> (string, nat) GeneratorWithCustomTemplate" where
  "ex_customGen n =
     \<lparr>ct_totEvents = 3,
      ct_emitters = [\<lparr>fieldName = ''f'', fieldType = ''keyword'',
                      emitFunc = ex_emitFNotReturn ''f'', prefixBytes = ''a''\<rparr>],
      ct_trailingTemplate = ''b'',
      ct_state = \<lparr>counter = of_nat n, prevCacheForDup = [''f'' \<mapsto> {}],
                  prevCacheCardinality = [''f'' \<mapsto> replicate n ''v'']\<rparr>\<rparr>"

definition ex_textGen :: "nat \<Rightarrow> (string, nat) GeneratorWithTextTemplate" where
  "ex_textGen n =
     \<lparr>tt_tpl = TGenerate ''f'' ex_printValue,
      tt_funcs = ex_funcs [''f'' \<mapsto> BoundEmitF (ex_EmitF ''f'')],
      tt_state = \<lparr>counter = of_nat n, prevCacheForDup = [''f'' \<mapsto> {}],
                  prevCacheCardinality = [''f'' \<mapsto> replicate (Suc n) ''v'']\<rparr>,
      tt_errChan = False, tt_totEvents = 3\<rparr>"

text \<open>
  The generators that the text constructor returns for the second and the third template
  without fields: the second with an unbounded count, its channel open or closed, after \<open>n\<close>
  events; the third with a count of \<open>n\<close>.
\<close>

definition ex_nosuchGen :: "bool \<Rightarrow> nat \<Rightarrow> (string, nat) GeneratorWithTextTemplate" where
  "ex_nosuchGen closed n =
     \<lparr>tt_tpl = TGenerate ''nosuch'' ex_printValue, tt_funcs = ex_funcs Map.empty,
      tt_state = \<lparr>counter = of_nat n, prevCacheForDup = Map.empty,
                  prevCacheCardinality = Map.empty\<rparr>,
      tt_errChan = closed, tt_totEvents = 0\<rparr>"

definition ex_zoneGen :: "64 word \<Rightarrow> (string, nat) GeneratorWithTextTemplate" where
  "ex_zoneGen n =
     \<lparr>tt_tpl = TAwsAZFromRegion ''us-west-1'' ex_zoneBranch, tt_funcs = ex_funcs Map.empty,
      tt_state = NewGenState, tt_errChan = False, tt_totEvents = n\<rparr>"

text \<open>
  The generator that the text constructor returns for the second template without fields
  and a target of 100 bytes: 10 events, none emitted yet, its channel closed.
\<close>

definition ex_poisonedGen :: "(string, nat) GeneratorWithTextTemplate" where
  "ex_poisonedGen =
     \<lparr>tt_tpl = TGenerate ''nosuch'' ex_printValue, tt_funcs = ex_funcs Map.empty,
      tt_state = NewGenState, tt_errChan = True, tt_totEvents = 10\<rparr>"

section \<open>The tokenizer on examples\<close>

lemmas parse_defs =
  parseCustomTemplate_def FindAllSubmatchIndex_def allMatches.simps doExecute_def
  fields_star.simps match_field_def parse_step_def slice_def slice_from_def byte_at_def Let_def

text \<open>
  Claim C7. For the template \<^verbatim>\<open>A{{.x}}B{{.y}}C\<close> the tokenizer returns the fields \<open>x, y\<close> in
  this order, the prefix map that sends \<open>x\<close> to \<^verbatim>\<open>A\<close> and \<open>y\<close> to \<^verbatim>\<open>B\<close>, and the trailing
  literal \<^verbatim>\<open>C\<close>.
\<close>

theorem parseCustomTemplate_two_fields:
  "parseCustomTemplate ''A{{.x}}B{{.y}}C'' =
     Some ([''x'', ''y''], [''x'' \<mapsto> ''A'', ''y'' \<mapsto> ''B''], ''C'')"
  by (simp add: parse_defs)

text \<open>
  Claim C8. A template without a placeholder should come back whole as the trailing literal.
  For \<^verbatim>\<open>{abc\<close> the expression first matches the empty string before the brace and then
  \<^verbatim>\<open>abc\<close>; both iterations find the byte at \<open>fieldPrefixPreviousN = 0\<close> to be a brace and
  append a brace, so the trailing literal is two braces and \<^verbatim>\<open>abc\<close> is lost.
\<close>

theorem parseCustomTemplate_stray_brace:
  "parseCustomTemplate ''{abc'' = Some ([], Map.empty, ''{{'')"
  by (simp add: parse_defs)

text \<open>
  It is the brace at the start that is lost: a brace further on comes back with the rest.
\<close>

lemma parseCustomTemplate_inner_brace:
  "parseCustomTemplate ''a{b'' = Some ([], Map.empty, ''a{b'')
   \<and> parseCustomTemplate ''ab{'' = Some ([], Map.empty, ''ab{'')"
  by (simp add: parse_defs)

text \<open>
  What holds of the claim: a template without any opening brace is one match of the
  expression and comes back whole, with no fields.
\<close>

lemma match_field_no_brace: "CHR ''{'' \<notin> set s \<Longrightarrow> match_field s = None"
proof -
  assume nb: "CHR ''{'' \<notin> set s"
  have "take 3 s \<noteq> ''{{.''"
  proof
    assume "take 3 s = ''{{.''"
    then have "CHR ''{'' \<in> set (take 3 s)" by simp
    then have "CHR ''{'' \<in> set s" by (rule in_set_takeD)
    with nb show False by simp
  qed
  then show ?thesis by (simp add: match_field_def)
qed

lemma doExecute_no_brace:
  assumes nb: "CHR ''{'' \<notin> set t"
  shows "doExecute t pos =
     [int pos, int (pos + length (drop pos t)), int pos, int (pos + length (drop pos t)), - 1, - 1]"
proof -
  have d: "CHR ''{'' \<notin> set (drop p t)" for p
    using nb by (meson in_set_dropD)
  have "takeWhile (\<lambda>c. c \<noteq> CHR ''{'') (drop pos t) = drop pos t"
    using d[of pos] by (auto simp: takeWhile_eq_all_conv)
  then have tw: "length (takeWhile (\<lambda>c. c \<noteq> CHR ''{'') (drop pos t)) = length (drop pos t)"
    by (rule arg_cong)
  have "fields_star t p None = (p, None)" for p
    by (subst fields_star.simps) (simp add: match_field_no_brace[OF d[of p]])
  with tw show ?thesis by (simp add: doExecute_def)
qed

lemma FindAllSubmatchIndex_no_brace:
  assumes nb: "CHR ''{'' \<notin> set t" and ne: "t \<noteq> []"
  shows "FindAllSubmatchIndex t =
           [[0, int (length t), 0, int (length t), - 1, - 1]]"
proof -
  let ?n = "length t"
  from ne have pos: "0 < ?n" by simp
  have e0: "doExecute t 0 = [0, int ?n, 0, int ?n, - 1, - 1]"
    using doExecute_no_brace[OF nb, of 0] by simp
  have en: "doExecute t ?n = [int ?n, int ?n, int ?n, int ?n, - 1, - 1]"
    using doExecute_no_brace[OF nb, of ?n] by simp
  have last: "allMatches t (?n + 1) (?n + 1) 1 (int ?n) = []"
    by (subst allMatches.simps) simp
  have mid: "allMatches t (?n + 1) ?n 1 (int ?n) = []"
    by (subst allMatches.simps) (use pos en last in simp)
  have "allMatches t (?n + 1) 0 0 (- 1) = [[0, int ?n, 0, int ?n, - 1, - 1]]"
    by (subst allMatches.simps) (use pos e0 mid in simp)
  then show ?thesis by (simp add: FindAllSubmatchIndex_def)
qed

lemma parseCustomTemplate_no_brace:
  assumes nb: "CHR ''{'' \<notin> set t"
  shows "parseCustomTemplate t = Some ([], Map.empty, t)"
proof (cases "t = []")
  case True
  then show ?thesis by (simp add: parseCustomTemplate_def)
next
  case False
  then obtain c cs where t: "t = c # cs" by (cases t) auto
  with nb have c: "c \<noteq> CHR ''{''" by auto
  have b: "byte_at t 0 = Some c" by (simp add: byte_at_def t)
  have s: "slice t 0 (int (length t)) = Some t" by (simp add: slice_def)
  from b c s have "parse_step t 1 0 [0, int (length t), 0, int (length t), - 1, - 1]
      \<lparr>ps_orderedFields = [], ps_templateFieldsMap = Map.empty, ps_fieldPrefixBuffer = [],
       ps_fieldPrefixPreviousN = 0, ps_trimTrailingTemplateN = 0\<rparr> =
    Some \<lparr>ps_orderedFields = [], ps_templateFieldsMap = Map.empty, ps_fieldPrefixBuffer = t,
       ps_fieldPrefixPreviousN = 0, ps_trimTrailingTemplateN = 0\<rparr>"
    by (simp add: parse_step_def slice_from_def)
  with False FindAllSubmatchIndex_no_brace[OF nb False] show ?thesis
    by (simp add: parseCustomTemplate_def)
qed

section \<open>Construction\<close>

lemmas ex_defs =
  ex_bindField_def ex_EmitF_def ex_emitFNotReturn_def ex_remember_def ex_field_def
  ex_Parse_def ex_tpl_f_def ex_tpl_nosuch_def ex_tpl_zone_def ex_printValue_def
  ex_zoneBranch_def ex_Intn_def ex_funcs_def

lemmas text_defs =
  NewGeneratorWithTextTemplate_def calculateTotEventsWithTextTemplate_def generate_def
  NewGenState_def totEventsOfSize_def Let_def

text \<open>
  Claim C2. A placeholder for a field that is not among the field definitions should make
  \<^verbatim>\<open>NewGeneratorWithCustomTemplate\<close> return an error. The field map has no entry for
  \<^verbatim>\<open>nosuch\<close>, the type assertion in the loop that builds the emitters has no second result,
  and the constructor panics: it returns neither an error nor a generator.
\<close>

theorem NewGeneratorWithCustomTemplate_unbound_field_panics:
  "NewGeneratorWithCustomTemplate ex_bindField ''{{.nosuch}}'' () [ex_field] 100 0 = (Panic, 0)"
  by (simp add: NewGeneratorWithCustomTemplate_def parse_defs ex_bindField_def ex_field_def)

text \<open>
  The part of the claim that holds: whatever the constructor returns as a generator has an
  emit function of the field map for every field name that the tokenizer returned, in the
  order of the template.
\<close>

lemma rollEmitters_names:
  "rollEmitters names fieldMap fieldTypes templateFieldsMap = Some es \<Longrightarrow>
   map fieldName es = names \<and>
   (\<forall>e \<in> set es. fieldMap (fieldName e) = Some (BoundEmitFNotReturn (emitFunc e)))"
proof (induction names arbitrary: es)
  case Nil
  then show ?case by simp
next
  case (Cons name names)
  then show ?case
    by (auto split: option.splits bound.splits)
qed

text \<open>
  Whenever the tokenizer returns a field name for which the field map holds no
  buffer-writing function after the binding loop, the constructor panics.
\<close>

lemma rollEmitters_unbound:
  "name \<in> set names \<Longrightarrow> \<forall>f. fieldMap name \<noteq> Some (BoundEmitFNotReturn f) \<Longrightarrow>
   rollEmitters names fieldMap fieldTypes templateFieldsMap = None"
proof (induction names)
  case Nil
  then show ?case by simp
next
  case (Cons n names)
  then show ?case
    by (cases "n = name") (auto split: option.splits bound.splits)
qed

lemma NewGeneratorWithCustomTemplate_unbound:
  assumes "parseCustomTemplate template = Some (orderedFields, templateFieldsMap, trailingTemplate)"
    and "bindFieldsCustom bindField cfg fieldDefs (Map.empty, Map.empty, NewGenState) =
           Inr (fieldMap, fieldTypes, state)"
    and "name \<in> set orderedFields"
    and "\<forall>f. fieldMap name \<noteq> Some (BoundEmitFNotReturn f)"
  shows "NewGeneratorWithCustomTemplate bindField template cfg fieldDefs totSize w = (Panic, w)"
proof -
  have "rollEmitters orderedFields fieldMap fieldTypes templateFieldsMap = None"
    using assms(3) assms(4) by (rule rollEmitters_unbound)
  with assms(1) assms(2) show ?thesis
    by (simp add: NewGeneratorWithCustomTemplate_def)
qed

text \<open>
  The tokenizer does not return every placeholder: of placeholders that follow one another
  with nothing in between, the expression captures the last one only. The undeclared field
  of \<^verbatim>\<open>{{.nosuch}}{{.f}}\<close> is never looked up, and the constructor returns a generator
  that emits the field \<^verbatim>\<open>f\<close> alone: here the claim fails without a panic and without an
  error.
\<close>

lemma NewGeneratorWithCustomTemplate_adjacent_placeholders:
  "parseCustomTemplate ''{{.nosuch}}{{.f}}'' = Some ([''f''], [''f'' \<mapsto> []], [])
   \<and> NewGeneratorWithCustomTemplate ex_bindField ''{{.nosuch}}{{.f}}'' () [ex_field] 100 0 =
       (Ok \<lparr>ct_totEvents = 100,
            ct_emitters = [\<lparr>fieldName = ''f'', fieldType = ''keyword'',
                            emitFunc = ex_emitFNotReturn ''f'', prefixBytes = []\<rparr>],
            ct_trailingTemplate = [],
            ct_state = \<lparr>counter = 0, prevCacheForDup = [''f'' \<mapsto> {}],
                        prevCacheCardinality = [''f'' \<mapsto> []]\<rparr>\<rparr>, 0)"
  by (simp add: NewGeneratorWithCustomTemplate_def parse_defs ex_defs
       calculateTotEventsWithCustomTemplate_def totEventsOfSize_def isolatedState_def
       NewGenState_def)

text \<open>
  Claim C4. The flag tripped by the estimator's sample render should fail the construction.
  The estimator looks at the channel before it parses and executes the sample, when nothing
  can have closed it, and not afterwards. For a template that generates the undeclared field
  \<^verbatim>\<open>nosuch\<close> the sample render closes the channel, prints \<^verbatim>\<open><no value>\<close> (10 bytes), and the
  constructor returns a generator with 10 events for a target of 100 bytes, its channel
  closed.
\<close>

theorem NewGeneratorWithTextTemplate_unbound_field_accepted:
  "NewGeneratorWithTextTemplate ex_bindField ex_Parse ex_Intn ex_tpl_nosuch () [] 100 0 =
     (Ok \<lparr>tt_tpl = TGenerate ''nosuch'' ex_printValue, tt_funcs = ex_funcs Map.empty,
          tt_state = NewGenState, tt_errChan = True, tt_totEvents = 10\<rparr>, 0)"
  by (simp add: text_defs ex_defs)

text \<open>
  In general: when the sample render returns no error, the constructor returns a generator
  whether the render has closed the channel or not.
\<close>

lemma NewGeneratorWithTextTemplate_flag_not_checked:
  assumes "bindFieldsText bindField cfg fieldDefs (Map.empty, NewGenState) = Inr (fieldMap, state)"
    and "totSize \<noteq> 0"
    and "Parse ''estimate_tot_events'' tpl = Inr sampleTpl"
    and "Execute sampleTpl
           \<lparr>fm_generate = generate fieldMap, fm_awsAZFromRegion = awsAZFromRegion Intn\<rparr> []
           (state, False, w) = (None, buf, (state', closed', w'))"
    and "Parse ''generator'' tpl = Inr parsedTpl"
  shows "NewGeneratorWithTextTemplate bindField Parse Intn tpl cfg fieldDefs totSize w =
           (Ok \<lparr>tt_tpl = parsedTpl,
                tt_funcs = \<lparr>fm_generate = generate fieldMap,
                             fm_awsAZFromRegion = awsAZFromRegion Intn\<rparr>,
                tt_state = state', tt_errChan = closed',
                tt_totEvents = totEventsOfSize totSize (length buf)\<rparr>, w')"
  using assms
  by (simp add: NewGeneratorWithTextTemplate_def calculateTotEventsWithTextTemplate_def Let_def)

text \<open>
  Claim C1. The estimation should leave the run's \<^verbatim>\<open>GenState\<close> as the constructor made it.
  With a text template the sample is executed with \<^verbatim>\<open>templateFns\<close>, whose \<^verbatim>\<open>generate\<close> runs
  the bound function on the run's state: constructed with a target of 0 bytes the generator
  starts with an empty cardinality cache for the field \<^verbatim>\<open>f\<close>, constructed with a target of
  1 byte it starts with the sample's value in that cache.
\<close>

theorem NewGeneratorWithTextTemplate_estimation_changes_state:
  "NewGeneratorWithTextTemplate ex_bindField ex_Parse ex_Intn ex_tpl_f () [ex_field] 0 0 =
     (Ok \<lparr>tt_tpl = TGenerate ''f'' ex_printValue,
          tt_funcs = ex_funcs [''f'' \<mapsto> BoundEmitF (ex_EmitF ''f'')],
          tt_state = \<lparr>counter = 0, prevCacheForDup = [''f'' \<mapsto> {}],
                      prevCacheCardinality = [''f'' \<mapsto> []]\<rparr>,
          tt_errChan = False, tt_totEvents = 0\<rparr>, 0)
   \<and> NewGeneratorWithTextTemplate ex_bindField ex_Parse ex_Intn ex_tpl_f () [ex_field] 1 0 =
     (Ok \<lparr>tt_tpl = TGenerate ''f'' ex_printValue,
          tt_funcs = ex_funcs [''f'' \<mapsto> BoundEmitF (ex_EmitF ''f'')],
          tt_state = \<lparr>counter = 0, prevCacheForDup = [''f'' \<mapsto> {}],
                      prevCacheCardinality = [''f'' \<mapsto> [''v'']]\<rparr>,
          tt_errChan = False, tt_totEvents = 1\<rparr>, 0)"
  by (simp add: text_defs ex_defs)

text \<open>
  With a custom template the claim holds: the state of the generator is the one that the
  binding loop made, whatever the size target and the emit functions.
\<close>

lemma NewGeneratorWithCustomTemplate_state:
  assumes "NewGeneratorWithCustomTemplate bindField template cfg fieldDefs totSize w = (Ok gen, w')"
    and "bindFieldsCustom bindField cfg fieldDefs (Map.empty, Map.empty, NewGenState) =
           Inr (fieldMap, fieldTypes, state)"
  shows "ct_state gen = state"
  using assms
  by (auto simp: NewGeneratorWithCustomTemplate_def split: option.splits sum.splits prod.splits)

section \<open>Emit\<close>

text \<open>
  Claim C10. In both variants \<^verbatim>\<open>Emit\<close> does not depend on the state argument of the caller:
  for any two arguments the returned error, the bytes in the buffer, the generator afterwards
  (with its counter) and the world afterwards are the same.
\<close>

theorem Emit_ignores_state_argument:
  "EmitCustom cgen state1 cbuf cw = EmitCustom cgen state2 cbuf cw
   \<and> EmitText tgen state1 tbuf tw = EmitText tgen state2 tbuf tw"
  by (simp add: EmitCustom_def EmitText_def)

section \<open>The bounded run of Emit\<close>

text \<open>
  Claim C5. Every generator constructed with a size target other than 0 should answer each
  of its first \<open>totEvents\<close> calls of \<^verbatim>\<open>Emit\<close> with an event when every render succeeds.
  The text constructor returns a generator for the template that generates the undeclared
  field \<^verbatim>\<open>nosuch\<close> with a target of 100 bytes: its bound is 10, its counter is 0, and every
  execution of its template on an open channel returns no error and writes \<^verbatim>\<open><no value>\<close>.
  The sample render has closed the channel, so the first \<^verbatim>\<open>Emit\<close> returns the
  unresolved-field error without executing the template: none of the 10 events is emitted
  and nothing is written to the buffer.
\<close>

theorem EmitText_bounded_generator_first_call_fails:
  "NewGeneratorWithTextTemplate ex_bindField ex_Parse ex_Intn ex_tpl_nosuch () [] 100 0 =
     (Ok ex_poisonedGen, 0)
   \<and> tt_totEvents ex_poisonedGen = 10
   \<and> counter (tt_state ex_poisonedGen) = 0
   \<and> (\<forall>buf state w.
         Execute (tt_tpl ex_poisonedGen) (tt_funcs ex_poisonedGen) buf (state, False, w) =
           (None, buf @ ''<no value>'', (state, True, w)))
   \<and> EmitText ex_poisonedGen None [] 0 =
       (Some generateOnFieldNotInFieldsYaml, ex_poisonedGen, [], 0)"
  by (simp add: text_defs ex_defs ex_poisonedGen_def EmitText_def emitText_def)

text \<open>
  What holds of the claim, for both variants: as long as no render trips the unresolved-field
  flag, the run is as the claim has it. The lemmas of this section lead to
  \<open>Emit_bounded_run\<close>.
\<close>

lemma word64_of_nat_less:
  "k < unat (n :: 64 word) \<Longrightarrow> (of_nat k :: 64 word) < n"
  by (simp add: word_less_nat_alt le_unat_uoi [of k n])

lemma totEventsOfSize_nonzero: "totEventsOfSize totSize n \<noteq> 0"
  by (simp add: totEventsOfSize_def Let_def)

lemma bindFieldsCustom_counter:
  "bindFieldsCustom bindField cfg fs (fm, ft, st) = Inr (fm', ft', st') \<Longrightarrow>
   counter st' = counter st"
proof (induction fs arbitrary: fm ft st)
  case Nil
  then show ?case by simp
next
  case (Cons f fs)
  then show ?case by (auto split: sum.splits)
qed

lemma bindFieldsText_counter:
  "bindFieldsText bindField cfg fs (fm, st) = Inr (fm', st') \<Longrightarrow> counter st' = counter st"
proof (induction fs arbitrary: fm st)
  case Nil
  then show ?case by simp
next
  case (Cons f fs)
  then show ?case by (auto split: sum.splits)
qed

subsection \<open>Custom template\<close>

lemma runEmitters_event:
  "emittersOK es \<Longrightarrow>
   \<exists>state' b w'. runEmitters es state buf w = (None, state', b, w')
      \<and> counter state' = counter state
      \<and> b @ trailing = buf @ eventBytes es trailing state w"
proof (induction es arbitrary: state buf w)
  case Nil
  then show ?case by simp
next
  case (Cons e es)
  from Cons.prems have e: "\<And>state buf w. case emitFunc e state [] w of
          (err, state', out, w') \<Rightarrow>
            err = None \<and> counter state' = counter state
            \<and> emitFunc e state buf w = (None, state', buf @ out, w')"
    and es: "emittersOK es"
    by auto
  obtain err s1 out w1 where r: "emitFunc e state [] w = (err, s1, out, w1)"
    by (metis prod_cases4)
  with e[of state "buf @ prefixBytes e" w]
  have p: "err = None" "counter s1 = counter state"
    "emitFunc e state (buf @ prefixBytes e) w = (None, s1, (buf @ prefixBytes e) @ out, w1)"
    by auto
  from Cons.IH[OF es, of s1 "(buf @ prefixBytes e) @ out" w1] obtain s2 b2 w2 where
    q: "runEmitters es s1 ((buf @ prefixBytes e) @ out) w1 = (None, s2, b2, w2)"
       "counter s2 = counter s1"
       "b2 @ trailing = ((buf @ prefixBytes e) @ out) @ eventBytes es trailing s1 w1"
    by blast
  from r p q show ?case by simp
qed

lemma EmitCustom_step:
  assumes ok: "emittersOK (ct_emitters g)"
    and lt: "counter (ct_state g) < ct_totEvents g"
  shows "\<exists>g' w'. EmitCustom g s buf w =
            (None, g',
             buf @ eventBytes (ct_emitters g) (ct_trailingTemplate g) (ct_state g) w, w')
            \<and> counter (ct_state g') = counter (ct_state g) + 1
            \<and> ct_emitters g' = ct_emitters g \<and> ct_totEvents g' = ct_totEvents g"
proof -
  from runEmitters_event[OF ok, of "ct_state g" buf w "ct_trailingTemplate g"]
  obtain s1 b1 w1 where
    r: "runEmitters (ct_emitters g) (ct_state g) buf w = (None, s1, b1, w1)"
       "counter s1 = counter (ct_state g)"
       "b1 @ ct_trailingTemplate g =
          buf @ eventBytes (ct_emitters g) (ct_trailingTemplate g) (ct_state g) w"
    by blast
  then show ?thesis using lt
    by (simp add: EmitCustom_def emitCustom_def Let_def)
qed

lemma EmitCustom_EOF:
  assumes "ct_totEvents g \<noteq> 0" and "\<not> counter (ct_state g) < ct_totEvents g"
  shows "EmitCustom g s buf w = (Some EOF, g, buf, w)"
  using assms by (simp add: EmitCustom_def emitCustom_def)

lemma afterEmitsCustom_inv:
  assumes ok: "emittersOK (ct_emitters gen)"
    and c0: "counter (ct_state gen) = 0"
  shows "k \<le> unat (ct_totEvents gen) \<Longrightarrow>
         (case afterEmitsCustom k gen bufs w of (g, w') \<Rightarrow>
            counter (ct_state g) = of_nat k \<and> ct_emitters g = ct_emitters gen
            \<and> ct_totEvents g = ct_totEvents gen)"
proof (induction k)
  case 0
  then show ?case using c0 by simp
next
  case (Suc k)
  obtain g w' where a: "afterEmitsCustom k gen bufs w = (g, w')"
    by (cases "afterEmitsCustom k gen bufs w")
  with Suc have inv: "counter (ct_state g) = of_nat k" "ct_emitters g = ct_emitters gen"
      "ct_totEvents g = ct_totEvents gen" by auto
  from Suc.prems have "k < unat (ct_totEvents gen)" by simp
  then have lt: "counter (ct_state g) < ct_totEvents g"
    using inv by (simp add: word64_of_nat_less)
  have ok': "emittersOK (ct_emitters g)" using ok inv by simp
  from EmitCustom_step[OF ok' lt, of None "bufs k" w']
  obtain g' buf' w'' where s: "EmitCustom g None (bufs k) w' = (None, g', buf', w'')"
     "counter (ct_state g') = counter (ct_state g) + 1"
     "ct_emitters g' = ct_emitters g" "ct_totEvents g' = ct_totEvents g"
    by auto
  with a inv show ?case by simp
qed

lemma NewGeneratorWithCustomTemplate_start:
  assumes c: "NewGeneratorWithCustomTemplate bindField template cfg fieldDefs totSize w0 = (Ok gen, w1)"
    and nz: "totSize \<noteq> 0"
  shows "counter (ct_state gen) = 0 \<and> ct_totEvents gen \<noteq> 0"
  using c nz
  by (auto simp: NewGeneratorWithCustomTemplate_def calculateTotEventsWithCustomTemplate_def
        totEventsOfSize_nonzero NewGenState_def
      dest!: bindFieldsCustom_counter
      split: option.splits sum.splits prod.splits if_splits)

lemma custom_bounded_run:
  assumes c: "NewGeneratorWithCustomTemplate bindField template cfg fieldDefs totSize w0 = (Ok gen, w1)"
    and nz: "totSize \<noteq> 0"
    and ok: "emittersOK (ct_emitters gen)"
    and a: "afterEmitsCustom k gen bufs w1 = (g, w)"
  shows "(k < unat (ct_totEvents gen) \<longrightarrow>
            (\<exists>g' w'. EmitCustom g s buf w =
               (None, g',
                buf @ eventBytes (ct_emitters g) (ct_trailingTemplate g) (ct_state g) w, w')
               \<and> counter (ct_state g') = counter (ct_state g) + 1))
       \<and> (k = unat (ct_totEvents gen) \<longrightarrow> EmitCustom g s buf w = (Some EOF, g, buf, w))"
proof -
  from NewGeneratorWithCustomTemplate_start[OF c nz]
  have c0: "counter (ct_state gen) = 0" and tz: "ct_totEvents gen \<noteq> 0" by simp_all
  have inv: "counter (ct_state g) = of_nat k \<and> ct_emitters g = ct_emitters gen
            \<and> ct_totEvents g = ct_totEvents gen" if "k \<le> unat (ct_totEvents gen)"
    using afterEmitsCustom_inv[OF ok c0 that, of bufs w1] a by simp
  show ?thesis
  proof (intro conjI impI)
    assume k: "k < unat (ct_totEvents gen)"
    with inv have i: "counter (ct_state g) = of_nat k" "ct_emitters g = ct_emitters gen"
      "ct_totEvents g = ct_totEvents gen" by simp_all
    from k i have lt: "counter (ct_state g) < ct_totEvents g" by (simp add: word64_of_nat_less)
    have ok': "emittersOK (ct_emitters g)" using ok i by simp
    from EmitCustom_step[OF ok' lt, of s buf w]
    show "\<exists>g' w'. EmitCustom g s buf w =
               (None, g',
                buf @ eventBytes (ct_emitters g) (ct_trailingTemplate g) (ct_state g) w, w')
               \<and> counter (ct_state g') = counter (ct_state g) + 1"
      by blast
  next
    assume k: "k = unat (ct_totEvents gen)"
    with inv have i: "counter (ct_state g) = ct_totEvents gen"
      "ct_totEvents g = ct_totEvents gen" by simp_all
    with tz show "EmitCustom g s buf w = (Some EOF, g, buf, w)"
      by (intro EmitCustom_EOF) simp_all
  qed
qed

subsection \<open>Text template\<close>

text \<open>
  The execution of a template only appends: on a buffer that holds \<open>buf\<close> it does what it
  does on an empty buffer, with \<open>buf\<close> in front of what it writes.
\<close>

lemma Execute_append:
  "Execute t funcs buf \<sigma> =
     (case Execute t funcs [] \<sigma> of (err, out, \<sigma>') \<Rightarrow> (err, buf @ out, \<sigma>'))"
proof (induction t arbitrary: buf \<sigma>)
  case TDone
  then show ?case by simp
next
  case (TText b k)
  have "Execute k funcs (buf @ b) \<sigma> =
      (case Execute k funcs [] \<sigma> of (err, out, \<sigma>') \<Rightarrow> (err, (buf @ b) @ out, \<sigma>'))"
    by (rule TText.IH)
  moreover have "Execute k funcs b \<sigma> =
      (case Execute k funcs [] \<sigma> of (err, out, \<sigma>') \<Rightarrow> (err, b @ out, \<sigma>'))"
    by (rule TText.IH)
  ultimately show ?case by (simp split: prod.splits)
next
  case (TGenerate field k)
  obtain r \<sigma>' where g: "fm_generate funcs field \<sigma> = (r, \<sigma>')"
    by (cases "fm_generate funcs field \<sigma>")
  show ?case
  proof (cases r)
    case (Ok v)
    with g TGenerate.IH[of "k v" buf \<sigma>'] show ?thesis by simp
  qed (use g in simp_all)
next
  case (TAwsAZFromRegion region k)
  obtain state closed w where s: "\<sigma> = (state, closed, w)" by (cases \<sigma>)
  obtain r w' where g: "fm_awsAZFromRegion funcs region w = (r, w')"
    by (cases "fm_awsAZFromRegion funcs region w")
  show ?case
  proof (cases r)
    case (Ok az)
    with g s TAwsAZFromRegion.IH[of "k az" buf "(state, closed, w')"] show ?thesis by simp
  qed (use g s in simp_all)
next
  case (TFail err)
  then show ?case by simp
qed

lemma EmitText_step:
  assumes ok: "rendersOK (tt_tpl g) (tt_funcs g)"
    and op: "\<not> tt_errChan g"
    and lt: "counter (tt_state g) < tt_totEvents g"
  shows "\<exists>g' w'. EmitText g s buf w =
            (None, g', buf @ eventBytesText (tt_tpl g) (tt_funcs g) (tt_state g, False, w), w')
            \<and> counter (tt_state g') = counter (tt_state g) + 1
            \<and> tt_tpl g' = tt_tpl g \<and> tt_funcs g' = tt_funcs g
            \<and> tt_totEvents g' = tt_totEvents g \<and> \<not> tt_errChan g'"
proof -
  obtain err out s1 c1 w1 where
    r: "Execute (tt_tpl g) (tt_funcs g) [] (tt_state g, False, w) = (err, out, (s1, c1, w1))"
    by (metis prod_cases4)
  with ok have p: "err = None" "\<not> c1" "counter s1 = counter (tt_state g)"
    by (auto dest!: spec[of _ "[]"] spec[of _ "tt_state g"] spec[of _ w])
  from Execute_append[of "tt_tpl g" "tt_funcs g" buf "(tt_state g, False, w)"] r
  have "Execute (tt_tpl g) (tt_funcs g) buf (tt_state g, False, w) =
      (err, buf @ out, (s1, c1, w1))"
    by simp
  with r p op lt show ?thesis
    by (simp add: EmitText_def emitText_def eventBytesText_def)
qed

lemma EmitText_EOF:
  assumes "tt_totEvents g \<noteq> 0" and "\<not> counter (tt_state g) < tt_totEvents g"
  shows "EmitText g s buf w = (Some EOF, g, buf, w)"
  using assms by (simp add: EmitText_def emitText_def)

lemma afterEmitsText_inv:
  assumes ok: "rendersOK (tt_tpl gen) (tt_funcs gen)"
    and op: "\<not> tt_errChan gen"
    and c0: "counter (tt_state gen) = 0"
  shows "k \<le> unat (tt_totEvents gen) \<Longrightarrow>
         (case afterEmitsText k gen bufs w of (g, w') \<Rightarrow>
            counter (tt_state g) = of_nat k \<and> tt_tpl g = tt_tpl gen \<and> tt_funcs g = tt_funcs gen
            \<and> tt_totEvents g = tt_totEvents gen \<and> \<not> tt_errChan g)"
proof (induction k)
  case 0
  then show ?case using c0 op by simp
next
  case (Suc k)
  obtain g w' where a: "afterEmitsText k gen bufs w = (g, w')"
    by (cases "afterEmitsText k gen bufs w")
  with Suc have inv: "counter (tt_state g) = of_nat k" "tt_tpl g = tt_tpl gen"
      "tt_funcs g = tt_funcs gen" "tt_totEvents g = tt_totEvents gen" "\<not> tt_errChan g" by auto
  from Suc.prems have "k < unat (tt_totEvents gen)" by simp
  then have lt: "counter (tt_state g) < tt_totEvents g"
    using inv by (simp add: word64_of_nat_less)
  have ok': "rendersOK (tt_tpl g) (tt_funcs g)" using ok inv by simp
  from EmitText_step[OF ok' inv(5) lt, of None "bufs k" w']
  obtain g' buf' w'' where s: "EmitText g None (bufs k) w' = (None, g', buf', w'')"
     "counter (tt_state g') = counter (tt_state g) + 1"
     "tt_tpl g' = tt_tpl g" "tt_funcs g' = tt_funcs g" "tt_totEvents g' = tt_totEvents g"
     "\<not> tt_errChan g'"
    by auto
  with a inv show ?case by simp
qed

lemma NewGeneratorWithTextTemplate_Ok:
  assumes c: "NewGeneratorWithTextTemplate bindField Parse Intn tpl cfg fieldDefs totSize w0 = (Ok gen, w1)"
  obtains fieldMap state0 state1 closed1 where
    "bindFieldsText bindField cfg fieldDefs (Map.empty, NewGenState) = Inr (fieldMap, state0)"
    "tt_funcs gen = \<lparr>fm_generate = generate fieldMap, fm_awsAZFromRegion = awsAZFromRegion Intn\<rparr>"
    "calculateTotEventsWithTextTemplate Parse totSize fieldMap tpl (tt_funcs gen) (state0, False, w0)
       = (Inr (tt_totEvents gen), (state1, closed1, w1))"
    "Parse ''generator'' tpl = Inr (tt_tpl gen)"
    "tt_state gen = state1" "tt_errChan gen = closed1"
  using c
  by (auto simp: NewGeneratorWithTextTemplate_def Let_def split: sum.splits prod.splits)

lemma calculateTotEventsWithTextTemplate_Inr:
  assumes "calculateTotEventsWithTextTemplate Parse totSize fieldMap tpl templateFns (state, False, w)
             = (Inr n, \<sigma>')"
    and "totSize \<noteq> 0"
  obtains parsedTpl buf where
    "Parse ''estimate_tot_events'' tpl = Inr parsedTpl"
    "Execute parsedTpl templateFns [] (state, False, w) = (None, buf, \<sigma>')"
    "n = totEventsOfSize totSize (length buf)"
  using assms
  by (auto simp: calculateTotEventsWithTextTemplate_def Let_def
      split: sum.splits prod.splits option.splits)

lemma NewGeneratorWithTextTemplate_start:
  assumes c: "NewGeneratorWithTextTemplate bindField Parse Intn tpl cfg fieldDefs totSize w0 = (Ok gen, w1)"
    and nz: "totSize \<noteq> 0"
    and ok: "\<forall>name t. Parse name tpl = Inr t \<longrightarrow> rendersOK t (tt_funcs gen)"
  shows "counter (tt_state gen) = 0 \<and> \<not> tt_errChan gen \<and> tt_totEvents gen \<noteq> 0
         \<and> rendersOK (tt_tpl gen) (tt_funcs gen)"
proof -
  from c obtain fieldMap state0 state1 closed1 where
    b: "bindFieldsText bindField cfg fieldDefs (Map.empty, NewGenState) = Inr (fieldMap, state0)"
    and e: "calculateTotEventsWithTextTemplate Parse totSize fieldMap tpl (tt_funcs gen)
              (state0, False, w0) = (Inr (tt_totEvents gen), (state1, closed1, w1))"
    and p: "Parse ''generator'' tpl = Inr (tt_tpl gen)"
    and s: "tt_state gen = state1" "tt_errChan gen = closed1"
    by (rule NewGeneratorWithTextTemplate_Ok)
  from e nz obtain parsedTpl buf where
    pe: "Parse ''estimate_tot_events'' tpl = Inr parsedTpl"
    and x: "Execute parsedTpl (tt_funcs gen) [] (state0, False, w0) =
              (None, buf, (state1, closed1, w1))"
    and n: "tt_totEvents gen = totEventsOfSize totSize (length buf)"
    by (rule calculateTotEventsWithTextTemplate_Inr)
  have "rendersOK parsedTpl (tt_funcs gen)" by (rule mp[OF spec[OF spec[OF ok]] pe])
  with x have "\<not> closed1" "counter state1 = counter state0"
    by (auto dest!: spec[of _ "[]"] spec[of _ state0] spec[of _ w0])
  moreover from b have "counter state0 = 0"
    by (simp add: bindFieldsText_counter NewGenState_def)
  moreover have "rendersOK (tt_tpl gen) (tt_funcs gen)" by (rule mp[OF spec[OF spec[OF ok]] p])
  ultimately show ?thesis using s n totEventsOfSize_nonzero by simp
qed

lemma text_bounded_run:
  assumes c: "NewGeneratorWithTextTemplate bindField Parse Intn tpl cfg fieldDefs totSize w0 = (Ok gen, w1)"
    and nz: "totSize \<noteq> 0"
    and ok: "\<forall>name t. Parse name tpl = Inr t \<longrightarrow> rendersOK t (tt_funcs gen)"
    and a: "afterEmitsText k gen bufs w1 = (g, w)"
  shows "(k < unat (tt_totEvents gen) \<longrightarrow>
            (\<exists>g' w'. EmitText g s buf w =
               (None, g', buf @ eventBytesText (tt_tpl g) (tt_funcs g) (tt_state g, False, w), w')
               \<and> counter (tt_state g') = counter (tt_state g) + 1))
       \<and> (k = unat (tt_totEvents gen) \<longrightarrow> EmitText g s buf w = (Some EOF, g, buf, w))"
proof -
  from NewGeneratorWithTextTemplate_start[OF c nz ok]
  have c0: "counter (tt_state gen) = 0" and op: "\<not> tt_errChan gen"
    and tz: "tt_totEvents gen \<noteq> 0" and r: "rendersOK (tt_tpl gen) (tt_funcs gen)"
    by simp_all
  have inv: "counter (tt_state g) = of_nat k \<and> tt_tpl g = tt_tpl gen \<and> tt_funcs g = tt_funcs gen
            \<and> tt_totEvents g = tt_totEvents gen \<and> \<not> tt_errChan g"
    if "k \<le> unat (tt_totEvents gen)"
    using afterEmitsText_inv[OF r op c0 that, of bufs w1] a by simp
  show ?thesis
  proof (intro conjI impI)
    assume k: "k < unat (tt_totEvents gen)"
    with inv have i: "counter (tt_state g) = of_nat k" "tt_tpl g = tt_tpl gen"
      "tt_funcs g = tt_funcs gen" "tt_totEvents g = tt_totEvents gen" "\<not> tt_errChan g"
      by simp_all
    from k i have lt: "counter (tt_state g) < tt_totEvents g" by (simp add: word64_of_nat_less)
    have ok': "rendersOK (tt_tpl g) (tt_funcs g)" using r i by simp
    from EmitText_step[OF ok' i(5) lt, of s buf w]
    show "\<exists>g' w'. EmitText g s buf w =
               (None, g', buf @ eventBytesText (tt_tpl g) (tt_funcs g) (tt_state g, False, w), w')
               \<and> counter (tt_state g') = counter (tt_state g) + 1"
      by blast
  next
    assume k: "k = unat (tt_totEvents gen)"
    with inv have i: "counter (tt_state g) = tt_totEvents gen"
      "tt_totEvents g = tt_totEvents gen" by simp_all
    with tz show "EmitText g s buf w = (Some EOF, g, buf, w)"
      by (intro EmitText_EOF) simp_all
  qed
qed

subsection \<open>Both variants\<close>

text \<open>
  A generator of either variant, constructed with a size target other than 0, has a bound
  \<open>totEvents\<close> of at least 1. When every render of an event succeeds and no render trips
  the unresolved-field flag, each of the first \<open>totEvents\<close> calls of \<^verbatim>\<open>Emit\<close> returns no
  error, leaves the buffer it was given with the bytes of the event appended and advances the
  counter by one; the call after them returns \<^verbatim>\<open>io.EOF\<close> and changes neither the buffer
  nor the generator. \<open>k\<close> is the number of calls made before the one looked at.
\<close>

lemma Emit_bounded_run:
  "(NewGeneratorWithCustomTemplate cbind template ccfg cfields csize cwi = (Ok cgen, cwc)
      \<and> csize \<noteq> 0 \<and> emittersOK (ct_emitters cgen)
      \<and> afterEmitsCustom ck cgen cbufs cwc = (cg, cw) \<longrightarrow>
      (ck < unat (ct_totEvents cgen) \<longrightarrow>
         (\<exists>g' w'. EmitCustom cg cs cbuf cw =
            (None, g',
             cbuf @ eventBytes (ct_emitters cg) (ct_trailingTemplate cg) (ct_state cg) cw, w')
            \<and> counter (ct_state g') = counter (ct_state cg) + 1))
      \<and> (ck = unat (ct_totEvents cgen) \<longrightarrow> EmitCustom cg cs cbuf cw = (Some EOF, cg, cbuf, cw)))
 \<and> (NewGeneratorWithTextTemplate tbind Parse Intn tpl tcfg tfields tsize twi = (Ok tgen, twc)
      \<and> tsize \<noteq> 0 \<and> (\<forall>name t. Parse name tpl = Inr t \<longrightarrow> rendersOK t (tt_funcs tgen))
      \<and> afterEmitsText tk tgen tbufs twc = (tg, tw) \<longrightarrow>
      (tk < unat (tt_totEvents tgen) \<longrightarrow>
         (\<exists>g' w'. EmitText tg ts tbuf tw =
            (None, g',
             tbuf @ eventBytesText (tt_tpl tg) (tt_funcs tg) (tt_state tg, False, tw), w')
            \<and> counter (tt_state g') = counter (tt_state tg) + 1))
      \<and> (tk = unat (tt_totEvents tgen) \<longrightarrow> EmitText tg ts tbuf tw = (Some EOF, tg, tbuf, tw)))"
proof (rule conjI)
  show "NewGeneratorWithCustomTemplate cbind template ccfg cfields csize cwi = (Ok cgen, cwc)
      \<and> csize \<noteq> 0 \<and> emittersOK (ct_emitters cgen)
      \<and> afterEmitsCustom ck cgen cbufs cwc = (cg, cw) \<longrightarrow>
      (ck < unat (ct_totEvents cgen) \<longrightarrow>
         (\<exists>g' w'. EmitCustom cg cs cbuf cw =
            (None, g',
             cbuf @ eventBytes (ct_emitters cg) (ct_trailingTemplate cg) (ct_state cg) cw, w')
            \<and> counter (ct_state g') = counter (ct_state cg) + 1))
      \<and> (ck = unat (ct_totEvents cgen) \<longrightarrow> EmitCustom cg cs cbuf cw = (Some EOF, cg, cbuf, cw))"
  proof (rule impI, elim conjE)
    assume "NewGeneratorWithCustomTemplate cbind template ccfg cfields csize cwi = (Ok cgen, cwc)"
      "csize \<noteq> 0" "emittersOK (ct_emitters cgen)" "afterEmitsCustom ck cgen cbufs cwc = (cg, cw)"
    then show "(ck < unat (ct_totEvents cgen) \<longrightarrow>
         (\<exists>g' w'. EmitCustom cg cs cbuf cw =
            (None, g',
             cbuf @ eventBytes (ct_emitters cg) (ct_trailingTemplate cg) (ct_state cg) cw, w')
            \<and> counter (ct_state g') = counter (ct_state cg) + 1))
      \<and> (ck = unat (ct_totEvents cgen) \<longrightarrow> EmitCustom cg cs cbuf cw = (Some EOF, cg, cbuf, cw))"
      by (rule custom_bounded_run)
  qed
next
  show "NewGeneratorWithTextTemplate tbind Parse Intn tpl tcfg tfields tsize twi = (Ok tgen, twc)
      \<and> tsize \<noteq> 0 \<and> (\<forall>name t. Parse name tpl = Inr t \<longrightarrow> rendersOK t (tt_funcs tgen))
      \<and> afterEmitsText tk tgen tbufs twc = (tg, tw) \<longrightarrow>
      (tk < unat (tt_totEvents tgen) \<longrightarrow>
         (\<exists>g' w'. EmitText tg ts tbuf tw =
            (None, g',
             tbuf @ eventBytesText (tt_tpl tg) (tt_funcs tg) (tt_state tg, False, tw), w')
            \<and> counter (tt_state g') = counter (tt_state tg) + 1))
      \<and> (tk = unat (tt_totEvents tgen) \<longrightarrow> EmitText tg ts tbuf tw = (Some EOF, tg, tbuf, tw))"
  proof (rule impI, elim conjE)
    assume "NewGeneratorWithTextTemplate tbind Parse Intn tpl tcfg tfields tsize twi = (Ok tgen, twc)"
      "tsize \<noteq> 0" "\<forall>name t. Parse name tpl = Inr t \<longrightarrow> rendersOK t (tt_funcs tgen)"
      "afterEmitsText tk tgen tbufs twc = (tg, tw)"
    then show "(tk < unat (tt_totEvents tgen) \<longrightarrow>
         (\<exists>g' w'. EmitText tg ts tbuf tw =
            (None, g',
             tbuf @ eventBytesText (tt_tpl tg) (tt_funcs tg) (tt_state tg, False, tw), w')
            \<and> counter (tt_state g') = counter (tt_state tg) + 1))
      \<and> (tk = unat (tt_totEvents tgen) \<longrightarrow> EmitText tg ts tbuf tw = (Some EOF, tg, tbuf, tw))"
      by (rule text_bounded_run)
  qed
qed

lemma ex_custom_construct:
  "NewGeneratorWithCustomTemplate ex_bindField ''a{{.f}}b'' () [ex_field] 9 0 = (Ok (ex_customGen 0), 0)"
  by (simp add: NewGeneratorWithCustomTemplate_def parse_defs ex_defs ex_customGen_def
       calculateTotEventsWithCustomTemplate_def totEventsOfSize_def isolatedState_def NewGenState_def)

lemma ex_custom_Emit:
  "n < 3 \<Longrightarrow> EmitCustom (ex_customGen n) s buf w = (None, ex_customGen (Suc n), buf @ ''avb'', w)"
  by (simp add: EmitCustom_def emitCustom_def ex_customGen_def ex_defs word_less_nat_alt
        unat_of_nat replicate_append_same)

lemma ex_customGen_tot: "unat (ct_totEvents (ex_customGen n)) = 3"
  by (simp add: ex_customGen_def)

lemma ex_custom_after3:
  "afterEmitsCustom 3 (ex_customGen 0) (\<lambda>i. []) 0 = (ex_customGen 3, 0)"
  by (simp add: eval_nat_numeral ex_custom_Emit)

lemma ex_custom_eventBytes:
  "eventBytes (ct_emitters (ex_customGen n)) (ct_trailingTemplate (ex_customGen n))
     (ct_state (ex_customGen n)) w = ''avb''"
  by (simp add: ex_customGen_def ex_emitFNotReturn_def)

lemma ex_text_construct:
  "NewGeneratorWithTextTemplate ex_bindField ex_Parse ex_Intn ex_tpl_f () [ex_field] 3 0 =
     (Ok (ex_textGen 0), 0)"
  by (simp add: text_defs ex_defs ex_textGen_def)

lemma ex_text_Emit:
  "n < 3 \<Longrightarrow> EmitText (ex_textGen n) s buf w = (None, ex_textGen (Suc n), buf @ ''v'', w)"
  by (simp add: EmitText_def emitText_def ex_textGen_def ex_defs generate_def
        word_less_nat_alt unat_of_nat replicate_append_same)

lemma ex_textGen_tot: "unat (tt_totEvents (ex_textGen n)) = 3"
  by (simp add: ex_textGen_def)

lemma ex_text_after3:
  "afterEmitsText 3 (ex_textGen 0) (\<lambda>i. []) 0 = (ex_textGen 3, 0)"
  by (simp add: eval_nat_numeral ex_text_Emit)

lemma ex_text_eventBytes:
  "eventBytesText (tt_tpl (ex_textGen n)) (tt_funcs (ex_textGen n))
     (tt_state (ex_textGen n), False, w) = ''v''"
  by (simp add: eventBytesText_def ex_textGen_def ex_funcs_def generate_def ex_EmitF_def
        ex_printValue_def)

lemma ex_text_rendersOK:
  "\<forall>name t. ex_Parse name ex_tpl_f = Inr t \<longrightarrow> rendersOK t (tt_funcs (ex_textGen 0))"
  by (simp add: ex_Parse_def ex_textGen_def ex_funcs_def generate_def ex_EmitF_def
        ex_remember_def ex_printValue_def)

lemma ex_custom_emittersOK: "emittersOK (ct_emitters (ex_customGen 0))"
  by (simp add: ex_customGen_def ex_emitFNotReturn_def ex_remember_def)

text \<open>
  The lemma at the two example generators, before the first call and after three: the first
  call appends \<^verbatim>\<open>avb\<close>, respectively \<^verbatim>\<open>v\<close>, to the buffer \<^verbatim>\<open>xyz\<close>.
\<close>

lemma Emit_bounded_run_example:
  "NewGeneratorWithCustomTemplate ex_bindField ''a{{.f}}b'' () [ex_field] 9 0 = (Ok (ex_customGen 0), 0)
   \<and> (\<exists>g' w'. EmitCustom (ex_customGen 0) None ''xyz'' 0 = (None, g', ''xyzavb'', w')
         \<and> counter (ct_state g') = counter (ct_state (ex_customGen 0)) + 1)
   \<and> afterEmitsCustom 3 (ex_customGen 0) (\<lambda>i. []) 0 = (ex_customGen 3, 0)
   \<and> EmitCustom (ex_customGen 3) None ''xyz'' 0 = (Some EOF, ex_customGen 3, ''xyz'', 0)
   \<and> NewGeneratorWithTextTemplate ex_bindField ex_Parse ex_Intn ex_tpl_f () [ex_field] 3 0 =
        (Ok (ex_textGen 0), 0)
   \<and> (\<exists>g' w'. EmitText (ex_textGen 0) None ''xyz'' 0 = (None, g', ''xyzv'', w')
         \<and> counter (tt_state g') = counter (tt_state (ex_textGen 0)) + 1)
   \<and> afterEmitsText 3 (ex_textGen 0) (\<lambda>i. []) 0 = (ex_textGen 3, 0)
   \<and> EmitText (ex_textGen 3) None ''xyz'' 0 = (Some EOF, ex_textGen 3, ''xyz'', 0)"
proof -
  have nz: "(9 :: 64 word) \<noteq> 0" "(3 :: 64 word) \<noteq> 0" by simp_all
  have c0: "afterEmitsCustom 0 (ex_customGen 0) (\<lambda>i. []) 0 = (ex_customGen 0, 0)" by simp
  have t0: "afterEmitsText 0 (ex_textGen 0) (\<lambda>i. []) 0 = (ex_textGen 0, 0)" by simp
  note first =
    Emit_bounded_run[where cbind = ex_bindField and template = "''a{{.f}}b''" and ccfg = "()"
      and cfields = "[ex_field]" and csize = 9 and cwi = 0 and cgen = "ex_customGen 0"
      and cwc = 0 and ck = 0 and cbufs = "\<lambda>i. []" and cg = "ex_customGen 0" and cw = 0
      and cs = None and cbuf = "''xyz''"
      and tbind = ex_bindField and Parse = ex_Parse and Intn = ex_Intn and tpl = ex_tpl_f
      and tcfg = "()" and tfields = "[ex_field]" and tsize = 3 and twi = 0
      and tgen = "ex_textGen 0" and twc = 0 and tk = 0 and tbufs = "\<lambda>i. []"
      and tg = "ex_textGen 0" and tw = 0 and ts = None and tbuf = "''xyz''"]
  note last =
    Emit_bounded_run[where cbind = ex_bindField and template = "''a{{.f}}b''" and ccfg = "()"
      and cfields = "[ex_field]" and csize = 9 and cwi = 0 and cgen = "ex_customGen 0"
      and cwc = 0 and ck = 3 and cbufs = "\<lambda>i. []" and cg = "ex_customGen 3" and cw = 0
      and cs = None and cbuf = "''xyz''"
      and tbind = ex_bindField and Parse = ex_Parse and Intn = ex_Intn and tpl = ex_tpl_f
      and tcfg = "()" and tfields = "[ex_field]" and tsize = 3 and twi = 0
      and tgen = "ex_textGen 0" and twc = 0 and tk = 3 and tbufs = "\<lambda>i. []"
      and tg = "ex_textGen 3" and tw = 0 and ts = None and tbuf = "''xyz''"]
  from first ex_custom_construct nz ex_custom_emittersOK c0 ex_customGen_tot
    ex_custom_eventBytes[of 0 0]
  have a: "\<exists>g' w'. EmitCustom (ex_customGen 0) None ''xyz'' 0 = (None, g', ''xyzavb'', w')
         \<and> counter (ct_state g') = counter (ct_state (ex_customGen 0)) + 1"
    by simp
  from last ex_custom_construct nz ex_custom_emittersOK ex_custom_after3 ex_customGen_tot
  have b: "EmitCustom (ex_customGen 3) None ''xyz'' 0 = (Some EOF, ex_customGen 3, ''xyz'', 0)"
    by simp
  from first ex_text_construct nz ex_text_rendersOK t0 ex_textGen_tot ex_text_eventBytes[of 0 0]
  have c: "\<exists>g' w'. EmitText (ex_textGen 0) None ''xyz'' 0 = (None, g', ''xyzv'', w')
         \<and> counter (tt_state g') = counter (tt_state (ex_textGen 0)) + 1"
    by simp
  from last ex_text_construct nz ex_text_rendersOK ex_text_after3 ex_textGen_tot
  have d: "EmitText (ex_textGen 3) None ''xyz'' 0 = (Some EOF, ex_textGen 3, ''xyz'', 0)"
    by simp
  from a b c d ex_custom_construct ex_custom_after3 ex_text_construct ex_text_after3
  show ?thesis by simp
qed

section \<open>The estimators\<close>

lemma totEventsOfSize_spec:
  assumes nz: "totSize \<noteq> 0" and len: "len < 2 ^ 64"
  shows "unat (totEventsOfSize totSize len) = estimate_spec (unat totSize) len"
proof -
  have u: "unat (word_of_nat len :: 64 word) = len"
    using len by (simp add: unat_of_nat)
  from nz have t: "unat totSize \<noteq> 0" by (simp add: unat_eq_zero)
  show ?thesis
  proof (cases "len = 0")
    case True
    with t show ?thesis by (simp add: totEventsOfSize_def estimate_spec_def)
  next
    case False
    with u have s: "(word_of_nat len :: 64 word) \<noteq> 0" by (metis unat_0)
    have d: "unat (totSize div word_of_nat len) = unat totSize div len"
      by (simp add: unat_div u)
    show ?thesis
    proof (cases "totSize div (word_of_nat len :: 64 word) = 0")
      case True
      with d have "unat totSize div len = 0" by simp
      with True s t False show ?thesis
        by (simp add: totEventsOfSize_def estimate_spec_def Let_def)
    next
      case False
      with d have "unat totSize div len \<noteq> 0" by (metis unat_eq_zero)
      with False s t \<open>len \<noteq> 0\<close> d show ?thesis
        by (simp add: totEventsOfSize_def estimate_spec_def Let_def max_def)
    qed
  qed
qed

lemma totEventsOfSize_example:
  assumes "3 < N" and "N * 5 + 3 < 2 ^ 64"
  shows "totEventsOfSize (word_of_nat (N * 5 + 3)) N = 5"
proof -
  let ?t = "word_of_nat (N * 5 + 3) :: 64 word"
  have "unat ?t = (N * 5 + 3) mod 2 ^ LENGTH(64)" by (rule unat_of_nat)
  with assms(2) have u: "unat ?t = N * 5 + 3" by simp
  then have nz: "?t \<noteq> 0" by (metis add_is_0 unat_0 zero_neq_numeral)
  have "N < 2 ^ 64" using assms(2) by simp
  from totEventsOfSize_spec[OF nz this] u
  have "unat (totEventsOfSize ?t N) = estimate_spec (N * 5 + 3) N" by simp
  also have "\<dots> = 5" using assms(1) by (simp add: estimate_spec_def)
  finally have "unat (totEventsOfSize ?t N) = unat (5 :: 64 word)" by simp
  then show ?thesis by (simp only: word_unat_eq_iff)
qed

text \<open>
  Claim C6, as stated, has the example that a sample of \<open>N\<close> bytes and a target of
  \<open>N * 5 + 3\<close> bytes give exactly 5 events. For a sample of one byte the target is 8 bytes
  and the estimator returns 8.
\<close>

theorem estimator_example_one_byte:
  "length ''a'' = 1
   \<and> calculateTotEventsWithCustomTemplate (word_of_nat (length ''a'' * 5 + 3))
        ([] :: (string, nat) emitter list) ''a'' 0 = (Inr 8, 0)
   \<and> (8 :: 64 word) \<noteq> 5"
  by (simp add: calculateTotEventsWithCustomTemplate_def totEventsOfSize_def)

text \<open>
  Claim C6, amended. Both estimators return 0 for a target of 0 and render nothing: the
  result does not depend on the emitters or the template, and the world, the state and the
  channel are as before. For another target, when the sample render succeeds, the count is
  the one of the specification for the length of the sample: 1 for an empty sample, otherwise
  the floor of the quotient, at least 1. (A buffer has fewer than \<open>2 ^ 64\<close> bytes.) A
  sample of \<open>N\<close> bytes and a target of \<open>N * 5 + 3\<close> bytes give exactly 5 events when \<open>N\<close>
  is more than 3.
\<close>

theorem estimators_event_count:
  "calculateTotEventsWithCustomTemplate 0 emitters trailingTemplate cw = (Inr 0, cw)
   \<and> calculateTotEventsWithTextTemplate Parse 0 fieldMap tpl templateFns \<sigma> = (Inr 0, \<sigma>)
   \<and> (csize \<noteq> 0 \<and> sampleEmitters emitters [] cw = (None, cbuf, cw')
        \<and> length (cbuf @ trailingTemplate) < 2 ^ 64 \<longrightarrow>
        (\<exists>n. calculateTotEventsWithCustomTemplate csize emitters trailingTemplate cw = (Inr n, cw')
           \<and> unat n = estimate_spec (unat csize) (length (cbuf @ trailingTemplate))))
   \<and> (tsize \<noteq> 0 \<and> Parse ''estimate_tot_events'' tpl = Inr parsedTpl
        \<and> Execute parsedTpl templateFns [] (state, False, tw) = (None, tbuf, \<sigma>')
        \<and> length tbuf < 2 ^ 64 \<longrightarrow>
        (\<exists>n. calculateTotEventsWithTextTemplate Parse tsize fieldMap tpl templateFns
                (state, False, tw) = (Inr n, \<sigma>')
           \<and> unat n = estimate_spec (unat tsize) (length tbuf)))
   \<and> (3 < N \<and> N * 5 + 3 < 2 ^ 64 \<longrightarrow> totEventsOfSize (word_of_nat (N * 5 + 3)) N = 5)"
proof (intro conjI)
  show "calculateTotEventsWithCustomTemplate 0 emitters trailingTemplate cw = (Inr 0, cw)"
    by (simp add: calculateTotEventsWithCustomTemplate_def)
next
  show "calculateTotEventsWithTextTemplate Parse 0 fieldMap tpl templateFns \<sigma> = (Inr 0, \<sigma>)"
    by (simp add: calculateTotEventsWithTextTemplate_def)
next
  show "csize \<noteq> 0 \<and> sampleEmitters emitters [] cw = (None, cbuf, cw')
        \<and> length (cbuf @ trailingTemplate) < 2 ^ 64 \<longrightarrow>
        (\<exists>n. calculateTotEventsWithCustomTemplate csize emitters trailingTemplate cw = (Inr n, cw')
           \<and> unat n = estimate_spec (unat csize) (length (cbuf @ trailingTemplate)))"
  proof (rule impI, elim conjE)
    assume nz: "csize \<noteq> 0" and s: "sampleEmitters emitters [] cw = (None, cbuf, cw')"
      and l: "length (cbuf @ trailingTemplate) < 2 ^ 64"
    from nz s have "calculateTotEventsWithCustomTemplate csize emitters trailingTemplate cw =
        (Inr (totEventsOfSize csize (length (cbuf @ trailingTemplate))), cw')"
      by (simp add: calculateTotEventsWithCustomTemplate_def)
    with totEventsOfSize_spec[OF nz l]
    show "\<exists>n. calculateTotEventsWithCustomTemplate csize emitters trailingTemplate cw = (Inr n, cw')
           \<and> unat n = estimate_spec (unat csize) (length (cbuf @ trailingTemplate))"
      by blast
  qed
next
  show "tsize \<noteq> 0 \<and> Parse ''estimate_tot_events'' tpl = Inr parsedTpl
        \<and> Execute parsedTpl templateFns [] (state, False, tw) = (None, tbuf, \<sigma>')
        \<and> length tbuf < 2 ^ 64 \<longrightarrow>
        (\<exists>n. calculateTotEventsWithTextTemplate Parse tsize fieldMap tpl templateFns
                (state, False, tw) = (Inr n, \<sigma>')
           \<and> unat n = estimate_spec (unat tsize) (length tbuf))"
  proof (rule impI, elim conjE)
    assume nz: "tsize \<noteq> 0" and p: "Parse ''estimate_tot_events'' tpl = Inr parsedTpl"
      and x: "Execute parsedTpl templateFns [] (state, False, tw) = (None, tbuf, \<sigma>')"
      and l: "length tbuf < 2 ^ 64"
    from nz p x have "calculateTotEventsWithTextTemplate Parse tsize fieldMap tpl templateFns
        (state, False, tw) = (Inr (totEventsOfSize tsize (length tbuf)), \<sigma>')"
      by (simp add: calculateTotEventsWithTextTemplate_def)
    with totEventsOfSize_spec[OF nz l]
    show "\<exists>n. calculateTotEventsWithTextTemplate Parse tsize fieldMap tpl templateFns
                (state, False, tw) = (Inr n, \<sigma>')
           \<and> unat n = estimate_spec (unat tsize) (length tbuf)"
      by blast
  qed
next
  show "3 < N \<and> N * 5 + 3 < 2 ^ 64 \<longrightarrow> totEventsOfSize (word_of_nat (N * 5 + 3)) N = 5"
    using totEventsOfSize_example by blast
qed

text \<open>
  The theorem at a custom template whose sample is \<^verbatim>\<open>avb\<close> and a text template whose sample
  is \<^verbatim>\<open>v\<close>, with targets of 10 and 7 bytes, and at \<open>N = 4\<close>.
\<close>

theorem estimators_event_count_witness:
  "sampleEmitters (ct_emitters (ex_customGen 0)) [] 0 = (None, ''av'', 0)
   \<and> calculateTotEventsWithCustomTemplate 10 (ct_emitters (ex_customGen 0)) ''b'' 0 = (Inr 3, 0)
   \<and> estimate_spec 10 3 = 3
   \<and> Execute (TGenerate ''f'' ex_printValue) (tt_funcs (ex_textGen 0)) []
        (tt_state (ex_textGen 0), False, 0) = (None, ''v'', (ex_remember ''f'' ''v'' (tt_state (ex_textGen 0)), False, 0))
   \<and> calculateTotEventsWithTextTemplate ex_Parse 7 [''f'' \<mapsto> BoundEmitF (ex_EmitF ''f'')] ex_tpl_f
        (tt_funcs (ex_textGen 0)) (tt_state (ex_textGen 0), False, 0) =
        (Inr 7, (ex_remember ''f'' ''v'' (tt_state (ex_textGen 0)), False, 0))
   \<and> totEventsOfSize 23 4 = 5"
proof -
  have s: "sampleEmitters (ct_emitters (ex_customGen 0)) [] 0 = (None, ''av'', 0)"
    by (simp add: ex_customGen_def ex_emitFNotReturn_def)
  have x: "Execute (TGenerate ''f'' ex_printValue) (tt_funcs (ex_textGen 0)) []
        (tt_state (ex_textGen 0), False, 0) = (None, ''v'', (ex_remember ''f'' ''v'' (tt_state (ex_textGen 0)), False, 0))"
    by (simp add: ex_textGen_def ex_funcs_def generate_def ex_EmitF_def ex_printValue_def)
  have p: "ex_Parse ''estimate_tot_events'' ex_tpl_f = Inr (TGenerate ''f'' ex_printValue)"
    by (simp add: ex_Parse_def)
  have e: "estimate_spec 10 3 = 3"
    by (simp add: estimate_spec_def)
  note T = estimators_event_count[where emitters = "ct_emitters (ex_customGen 0)"
      and trailingTemplate = "''b''" and cw = 0 and Parse = ex_Parse
      and fieldMap = "[''f'' \<mapsto> BoundEmitF (ex_EmitF ''f'')]" and tpl = ex_tpl_f
      and templateFns = "tt_funcs (ex_textGen 0)" and \<sigma> = "(tt_state (ex_textGen 0), False, 0)"
      and csize = 10 and cbuf = "''av''" and cw' = 0 and tsize = 7
      and parsedTpl = "TGenerate ''f'' ex_printValue" and state = "tt_state (ex_textGen 0)"
      and tw = 0 and tbuf = "''v''" and \<sigma>' = "(ex_remember ''f'' ''v'' (tt_state (ex_textGen 0)), False, 0)" and N = 4]
  have h: "(10 :: 64 word) \<noteq> 0
      \<and> sampleEmitters (ct_emitters (ex_customGen 0)) [] 0 = (None, ''av'', 0)
      \<and> length (''av'' @ ''b'') < 2 ^ 64"
    using s by simp
  from T[THEN conjunct2, THEN conjunct2, THEN conjunct1, THEN mp, OF h]
  obtain n where n: "calculateTotEventsWithCustomTemplate 10 (ct_emitters (ex_customGen 0))
        ''b'' 0 = (Inr n, 0)"
    and "unat n = estimate_spec (unat (10 :: 64 word)) (length (''av'' @ ''b''))"
    by blast
  then have "unat n = unat (3 :: 64 word)" by (simp add: estimate_spec_def)
  then have "n = 3" by (simp only: word_unat_eq_iff)
  with n have a: "calculateTotEventsWithCustomTemplate 10 (ct_emitters (ex_customGen 0)) ''b'' 0
      = (Inr 3, 0)"
    by simp
  have h': "(7 :: 64 word) \<noteq> 0
      \<and> ex_Parse ''estimate_tot_events'' ex_tpl_f = Inr (TGenerate ''f'' ex_printValue)
      \<and> Execute (TGenerate ''f'' ex_printValue) (tt_funcs (ex_textGen 0)) []
           (tt_state (ex_textGen 0), False, 0) =
           (None, ''v'', (ex_remember ''f'' ''v'' (tt_state (ex_textGen 0)), False, 0))
      \<and> length ''v'' < 2 ^ 64"
    using p x by simp
  from T[THEN conjunct2, THEN conjunct2, THEN conjunct2, THEN conjunct1, THEN mp, OF h']
  obtain m where m: "calculateTotEventsWithTextTemplate ex_Parse 7
        [''f'' \<mapsto> BoundEmitF (ex_EmitF ''f'')] ex_tpl_f
        (tt_funcs (ex_textGen 0)) (tt_state (ex_textGen 0), False, 0) =
        (Inr m, (ex_remember ''f'' ''v'' (tt_state (ex_textGen 0)), False, 0))"
    and "unat m = estimate_spec (unat (7 :: 64 word)) (length ''v'')"
    by blast
  then have "unat m = unat (7 :: 64 word)" by (simp add: estimate_spec_def)
  then have "m = 7" by (simp only: word_unat_eq_iff)
  with m have b: "calculateTotEventsWithTextTemplate ex_Parse 7
        [''f'' \<mapsto> BoundEmitF (ex_EmitF ''f'')] ex_tpl_f
        (tt_funcs (ex_textGen 0)) (tt_state (ex_textGen 0), False, 0) =
        (Inr 7, (ex_remember ''f'' ''v'' (tt_state (ex_textGen 0)), False, 0))"
    by simp
  from T have c: "totEventsOfSize 23 4 = 5" by simp
  from s x a b c e show ?thesis by simp
qed

section \<open>The unresolved-field flag in Emit\<close>

text \<open>
  Claim C3. The \<^verbatim>\<open>Emit\<close> whose execution reaches the undeclared field should return the
  unresolved-field error. \<^verbatim>\<open>emit\<close> looks at the channel before it executes the template
  and not afterwards: for a template that generates the undeclared field \<^verbatim>\<open>nosuch\<close>,
  constructed without a size target, the first \<^verbatim>\<open>Emit\<close> reaches the field, writes
  \<^verbatim>\<open><no value>\<close>, returns no error and counts the event; the channel is closed from then on
  and the second \<^verbatim>\<open>Emit\<close> is the first to return the error.
\<close>

theorem EmitText_unbound_field_first_call_succeeds:
  "NewGeneratorWithTextTemplate ex_bindField ex_Parse ex_Intn ex_tpl_nosuch () [] 0 0 =
     (Ok (ex_nosuchGen False 0), 0)
   \<and> EmitText (ex_nosuchGen False 0) None [] 0 = (None, ex_nosuchGen True 1, ''<no value>'', 0)
   \<and> EmitText (ex_nosuchGen True 1) None [] 0 =
       (Some generateOnFieldNotInFieldsYaml, ex_nosuchGen True 1, [], 0)"
  by (simp add: text_defs ex_defs ex_nosuchGen_def EmitText_def emitText_def)

text \<open>
  In general. A call of \<^verbatim>\<open>generate\<close> for a name that has no \<^verbatim>\<open>EmitF\<close> in the field map, on
  a channel that is still open, closes the channel and returns \<^verbatim>\<open>nil\<close> to the template.
\<close>

lemma generate_unbound_closes:
  assumes "\<forall>bindF. fieldMap field \<noteq> Some (BoundEmitF bindF)"
  shows "generate fieldMap field (state, False, w) = (Ok None, (state, True, w))"
  using assms by (auto simp: generate_def split: option.splits bound.splits)

text \<open>
  An \<^verbatim>\<open>Emit\<close> on an open channel that executes the template returns what the execution
  returns, an error or none, and when the execution has closed the channel the generator
  keeps it closed.
\<close>

lemma EmitText_trips_flag:
  assumes "\<not> tt_errChan gen"
    and "tt_totEvents gen = 0 \<or> counter (tt_state gen) < tt_totEvents gen"
    and "Execute (tt_tpl gen) (tt_funcs gen) buf (tt_state gen, False, w) =
           (err, buf', (state', True, w'))"
  shows "\<exists>gen'. EmitText gen arg buf w = (err, gen', buf', w') \<and> tt_errChan gen'"
  using assms by (cases err) (auto simp: EmitText_def emitText_def)

text \<open>
  The part of the claim that holds: every \<^verbatim>\<open>Emit\<close> on a generator whose channel is closed
  fails the same way. It returns the unresolved-field error (end of stream once the bound is
  reached), writes nothing and leaves the generator and the world as they were, so the
  generator is the same after any number of further calls.
\<close>

lemma EmitText_poisoned:
  assumes "tt_errChan gen"
  shows "EmitText gen arg buf w =
          (Some (if tt_totEvents gen = 0 \<or> counter (tt_state gen) < tt_totEvents gen
                 then generateOnFieldNotInFieldsYaml else EOF),
           gen, buf, w)"
  using assms by (simp add: EmitText_def emitText_def)

lemma afterEmitsText_poisoned:
  assumes "tt_errChan gen"
  shows "afterEmitsText k gen bufs w = (gen, w)"
proof (induction k)
  case 0
  then show ?case by simp
next
  case (Suc k)
  then show ?case by (simp add: EmitText_poisoned[OF assms])
qed

text \<open>
  The three lemmas at the generator of the example: its first call closes the channel, and
  after any number of further calls the next one returns the error and writes nothing.
\<close>

lemma EmitText_poisoned_example:
  "(\<exists>gen'. EmitText (ex_nosuchGen False 0) None ''xyz'' 0 = (None, gen', ''xyz<no value>'', 0)
      \<and> tt_errChan gen')
   \<and> afterEmitsText k (ex_nosuchGen True 1) bufs 0 = (ex_nosuchGen True 1, 0)
   \<and> EmitText (ex_nosuchGen True 1) None ''xyz'' 0 =
       (Some generateOnFieldNotInFieldsYaml, ex_nosuchGen True 1, ''xyz'', 0)"
proof -
  have n: "\<forall>bindF. (Map.empty :: (string, nat) fieldMap) ''nosuch'' \<noteq> Some (BoundEmitF bindF)"
    by simp
  have x: "Execute (tt_tpl (ex_nosuchGen False 0)) (tt_funcs (ex_nosuchGen False 0)) ''xyz''
             (tt_state (ex_nosuchGen False 0), False, 0) =
           (None, ''xyz<no value>'', (tt_state (ex_nosuchGen False 0), True, 0))"
    by (simp add: ex_nosuchGen_def ex_funcs_def ex_printValue_def generate_unbound_closes[OF n])
  have o: "\<not> tt_errChan (ex_nosuchGen False 0)"
    "tt_totEvents (ex_nosuchGen False 0) = 0
       \<or> counter (tt_state (ex_nosuchGen False 0)) < tt_totEvents (ex_nosuchGen False 0)"
    by (simp_all add: ex_nosuchGen_def)
  have c: "tt_errChan (ex_nosuchGen True 1)" by (simp add: ex_nosuchGen_def)
  from EmitText_trips_flag[OF o x, of None]
  have a: "\<exists>gen'. EmitText (ex_nosuchGen False 0) None ''xyz'' 0 =
             (None, gen', ''xyz<no value>'', 0) \<and> tt_errChan gen'" .
  from EmitText_poisoned[OF c, of None "''xyz''" 0]
  have b: "EmitText (ex_nosuchGen True 1) None ''xyz'' 0 =
       (Some generateOnFieldNotInFieldsYaml, ex_nosuchGen True 1, ''xyz'', 0)"
    by (simp add: ex_nosuchGen_def)
  from a b afterEmitsText_poisoned[OF c, of k bufs 0] show ?thesis by simp
qed

section \<open>Constructing twice\<close>

text \<open>
  Claim C9, as stated, gives two generators constructed from the same template, field set
  and size target the same \<open>totEvents\<close>. The sample of the estimator is rendered with what
  the random source of the process deals, and the source has moved on when the second
  generator is constructed. For the third template and a target of 22 bytes: the first
  construction draws the zone \<^verbatim>\<open>us-west-1a\<close>, renders 11 bytes and returns 2 events; the
  second, from the world the first left, draws \<^verbatim>\<open>us-west-1b\<close>, renders 1 byte and returns
  22 events.
\<close>

theorem totEvents_differ_between_constructions:
  "NewGeneratorWithTextTemplate ex_bindField ex_Parse ex_Intn ex_tpl_zone () [] 22 0 =
     (Ok (ex_zoneGen 2), 1)
   \<and> NewGeneratorWithTextTemplate ex_bindField ex_Parse ex_Intn ex_tpl_zone () [] 22 1 =
     (Ok (ex_zoneGen 22), 2)
   \<and> tt_totEvents (ex_zoneGen 2) \<noteq> tt_totEvents (ex_zoneGen 22)"
  by (simp add: text_defs ex_defs ex_zoneGen_def awsAZFromRegion_def awsAZs_def)

lemma NewGeneratorWithCustomTemplate_Ok:
  assumes "NewGeneratorWithCustomTemplate bindField template cfg fieldDefs totSize w = (Ok gen, w')"
  obtains orderedFields templateFieldsMap fieldMap fieldTypes where
    "parseCustomTemplate template = Some (orderedFields, templateFieldsMap, ct_trailingTemplate gen)"
    "bindFieldsCustom bindField cfg fieldDefs (Map.empty, Map.empty, NewGenState) =
       Inr (fieldMap, fieldTypes, ct_state gen)"
    "rollEmitters orderedFields fieldMap fieldTypes templateFieldsMap = Some (ct_emitters gen)"
    "calculateTotEventsWithCustomTemplate totSize (ct_emitters gen) (ct_trailingTemplate gen) w =
       (Inr (ct_totEvents gen), w')"
  using assms
  by (auto simp: NewGeneratorWithCustomTemplate_def
      split: option.splits sum.splits prod.splits)

lemma calculateTotEventsWithCustomTemplate_Inr:
  assumes "calculateTotEventsWithCustomTemplate totSize emitters trailingTemplate w = (Inr n, w')"
  shows "n = (if totSize = 0 then 0
              else totEventsOfSize totSize
                     (length (fst (snd (sampleEmitters emitters [] w))) + length trailingTemplate))"
  using assms
  by (auto simp: calculateTotEventsWithCustomTemplate_def
      split: if_splits prod.splits option.splits)

lemma calculateTotEventsWithTextTemplate_value:
  assumes "calculateTotEventsWithTextTemplate Parse totSize fieldMap tpl templateFns
             (state, False, w) = (Inr n, \<sigma>')"
    and "Parse ''estimate_tot_events'' tpl = Inr parsedTpl"
  shows "n = (if totSize = 0 then 0
              else totEventsOfSize totSize
                     (length (fst (snd (Execute parsedTpl templateFns [] (state, False, w))))))"
  using assms
  by (auto simp: calculateTotEventsWithTextTemplate_def Let_def
      split: if_splits prod.splits option.splits)

lemma custom_twice:
  assumes a: "NewGeneratorWithCustomTemplate bindField template cfg fieldDefs totSize wa = (Ok ga, wa')"
    and b: "NewGeneratorWithCustomTemplate bindField template cfg fieldDefs totSize wb = (Ok gb, wb')"
  shows "ct_emitters ga = ct_emitters gb \<and> ct_trailingTemplate ga = ct_trailingTemplate gb
       \<and> ct_state ga = ct_state gb
       \<and> (totSize = 0
            \<or> length (fst (snd (sampleEmitters (ct_emitters ga) [] wa))) =
              length (fst (snd (sampleEmitters (ct_emitters gb) [] wb)))
          \<longrightarrow> ct_totEvents ga = ct_totEvents gb)"
proof -
  from a obtain ofa tma fma fta where
    pa: "parseCustomTemplate template = Some (ofa, tma, ct_trailingTemplate ga)"
    and ba: "bindFieldsCustom bindField cfg fieldDefs (Map.empty, Map.empty, NewGenState) =
       Inr (fma, fta, ct_state ga)"
    and ra: "rollEmitters ofa fma fta tma = Some (ct_emitters ga)"
    and ca: "calculateTotEventsWithCustomTemplate totSize (ct_emitters ga) (ct_trailingTemplate ga) wa =
       (Inr (ct_totEvents ga), wa')"
    by (rule NewGeneratorWithCustomTemplate_Ok)
  from b obtain ofb tmb fmb ftb where
    pb: "parseCustomTemplate template = Some (ofb, tmb, ct_trailingTemplate gb)"
    and bb: "bindFieldsCustom bindField cfg fieldDefs (Map.empty, Map.empty, NewGenState) =
       Inr (fmb, ftb, ct_state gb)"
    and rb: "rollEmitters ofb fmb ftb tmb = Some (ct_emitters gb)"
    and cb: "calculateTotEventsWithCustomTemplate totSize (ct_emitters gb) (ct_trailingTemplate gb) wb =
       (Inr (ct_totEvents gb), wb')"
    by (rule NewGeneratorWithCustomTemplate_Ok)
  from pa pb ba bb ra rb have same: "ct_emitters ga = ct_emitters gb"
    "ct_trailingTemplate ga = ct_trailingTemplate gb" "ct_state ga = ct_state gb"
    by simp_all
  from calculateTotEventsWithCustomTemplate_Inr[OF ca]
    calculateTotEventsWithCustomTemplate_Inr[OF cb] same
  show ?thesis by auto
qed

lemma text_twice:
  assumes a: "NewGeneratorWithTextTemplate bindField Parse Intn tpl cfg fieldDefs totSize wa = (Ok ga, wa')"
    and b: "NewGeneratorWithTextTemplate bindField Parse Intn tpl cfg fieldDefs totSize wb = (Ok gb, wb')"
    and f: "bindFieldsText bindField cfg fieldDefs (Map.empty, NewGenState) = Inr (fieldMap, state)"
    and p: "Parse ''estimate_tot_events'' tpl = Inr parsedTpl"
  shows "tt_tpl ga = tt_tpl gb \<and> tt_funcs ga = tt_funcs gb
       \<and> (totSize = 0
            \<or> length (fst (snd (Execute parsedTpl (tt_funcs ga) [] (state, False, wa)))) =
              length (fst (snd (Execute parsedTpl (tt_funcs gb) [] (state, False, wb))))
          \<longrightarrow> tt_totEvents ga = tt_totEvents gb)"
proof -
  from a obtain fma sa sa' ca' where
    ba: "bindFieldsText bindField cfg fieldDefs (Map.empty, NewGenState) = Inr (fma, sa)"
    and fa: "tt_funcs ga = \<lparr>fm_generate = generate fma, fm_awsAZFromRegion = awsAZFromRegion Intn\<rparr>"
    and ea: "calculateTotEventsWithTextTemplate Parse totSize fma tpl (tt_funcs ga) (sa, False, wa)
       = (Inr (tt_totEvents ga), (sa', ca', wa'))"
    and ta: "Parse ''generator'' tpl = Inr (tt_tpl ga)"
    by (rule NewGeneratorWithTextTemplate_Ok)
  from b obtain fmb sb sb' cb' where
    bb: "bindFieldsText bindField cfg fieldDefs (Map.empty, NewGenState) = Inr (fmb, sb)"
    and fb: "tt_funcs gb = \<lparr>fm_generate = generate fmb, fm_awsAZFromRegion = awsAZFromRegion Intn\<rparr>"
    and eb: "calculateTotEventsWithTextTemplate Parse totSize fmb tpl (tt_funcs gb) (sb, False, wb)
       = (Inr (tt_totEvents gb), (sb', cb', wb'))"
    and tb: "Parse ''generator'' tpl = Inr (tt_tpl gb)"
    by (rule NewGeneratorWithTextTemplate_Ok)
  from f ba bb have s: "fma = fieldMap" "fmb = fieldMap" "sa = state" "sb = state" by simp_all
  with fa fb ta tb have same: "tt_tpl ga = tt_tpl gb" "tt_funcs ga = tt_funcs gb" by simp_all
  from calculateTotEventsWithTextTemplate_value[OF ea p]
    calculateTotEventsWithTextTemplate_value[OF eb p] s same
  show ?thesis by auto
qed

text \<open>
  Claim C9, amended. Two generators constructed from the same template, field set and size
  target have the same emitters, trailing literal and state (custom template) or the same
  parsed template and function map (text template), whatever the worlds they were constructed
  in; their \<open>totEvents\<close> are the same when the size target is 0 or the two sample renders of
  the estimator have the same number of bytes.
\<close>

theorem totEvents_same_for_equal_sample_length:
  "(NewGeneratorWithCustomTemplate cbind template ccfg cfields csize cwa = (Ok cga, cwa')
      \<and> NewGeneratorWithCustomTemplate cbind template ccfg cfields csize cwb = (Ok cgb, cwb') \<longrightarrow>
      ct_emitters cga = ct_emitters cgb \<and> ct_trailingTemplate cga = ct_trailingTemplate cgb
      \<and> ct_state cga = ct_state cgb
      \<and> (csize = 0
           \<or> length (fst (snd (sampleEmitters (ct_emitters cga) [] cwa))) =
             length (fst (snd (sampleEmitters (ct_emitters cgb) [] cwb)))
         \<longrightarrow> ct_totEvents cga = ct_totEvents cgb))
 \<and> (NewGeneratorWithTextTemplate tbind Parse Intn tpl tcfg tfields tsize twa = (Ok tga, twa')
      \<and> NewGeneratorWithTextTemplate tbind Parse Intn tpl tcfg tfields tsize twb = (Ok tgb, twb')
      \<and> bindFieldsText tbind tcfg tfields (Map.empty, NewGenState) = Inr (fieldMap, state)
      \<and> Parse ''estimate_tot_events'' tpl = Inr parsedTpl \<longrightarrow>
      tt_tpl tga = tt_tpl tgb \<and> tt_funcs tga = tt_funcs tgb
      \<and> (tsize = 0
           \<or> length (fst (snd (Execute parsedTpl (tt_funcs tga) [] (state, False, twa)))) =
             length (fst (snd (Execute parsedTpl (tt_funcs tgb) [] (state, False, twb))))
         \<longrightarrow> tt_totEvents tga = tt_totEvents tgb))"
proof (rule conjI)
  show "NewGeneratorWithCustomTemplate cbind template ccfg cfields csize cwa = (Ok cga, cwa')
      \<and> NewGeneratorWithCustomTemplate cbind template ccfg cfields csize cwb = (Ok cgb, cwb') \<longrightarrow>
      ct_emitters cga = ct_emitters cgb \<and> ct_trailingTemplate cga = ct_trailingTemplate cgb
      \<and> ct_state cga = ct_state cgb
      \<and> (csize = 0
           \<or> length (fst (snd (sampleEmitters (ct_emitters cga) [] cwa))) =
             length (fst (snd (sampleEmitters (ct_emitters cgb) [] cwb)))
         \<longrightarrow> ct_totEvents cga = ct_totEvents cgb)"
  proof (rule impI, elim conjE)
    assume "NewGeneratorWithCustomTemplate cbind template ccfg cfields csize cwa = (Ok cga, cwa')"
      "NewGeneratorWithCustomTemplate cbind template ccfg cfields csize cwb = (Ok cgb, cwb')"
    then show "ct_emitters cga = ct_emitters cgb \<and> ct_trailingTemplate cga = ct_trailingTemplate cgb
      \<and> ct_state cga = ct_state cgb
      \<and> (csize = 0
           \<or> length (fst (snd (sampleEmitters (ct_emitters cga) [] cwa))) =
             length (fst (snd (sampleEmitters (ct_emitters cgb) [] cwb)))
         \<longrightarrow> ct_totEvents cga = ct_totEvents cgb)"
      by (rule custom_twice)
  qed
next
  show "NewGeneratorWithTextTemplate tbind Parse Intn tpl tcfg tfields tsize twa = (Ok tga, twa')
      \<and> NewGeneratorWithTextTemplate tbind Parse Intn tpl tcfg tfields tsize twb = (Ok tgb, twb')
      \<and> bindFieldsText tbind tcfg tfields (Map.empty, NewGenState) = Inr (fieldMap, state)
      \<and> Parse ''estimate_tot_events'' tpl = Inr parsedTpl \<longrightarrow>
      tt_tpl tga = tt_tpl tgb \<and> tt_funcs tga = tt_funcs tgb
      \<and> (tsize = 0
           \<or> length (fst (snd (Execute parsedTpl (tt_funcs tga) [] (state, False, twa)))) =
             length (fst (snd (Execute parsedTpl (tt_funcs tgb) [] (state, False, twb))))
         \<longrightarrow> tt_totEvents tga = tt_totEvents tgb)"
  proof (rule impI, elim conjE)
    assume "NewGeneratorWithTextTemplate tbind Parse Intn tpl tcfg tfields tsize twa = (Ok tga, twa')"
      "NewGeneratorWithTextTemplate tbind Parse Intn tpl tcfg tfields tsize twb = (Ok tgb, twb')"
      "bindFieldsText tbind tcfg tfields (Map.empty, NewGenState) = Inr (fieldMap, state)"
      "Parse ''estimate_tot_events'' tpl = Inr parsedTpl"
    then show "tt_tpl tga = tt_tpl tgb \<and> tt_funcs tga = tt_funcs tgb
      \<and> (tsize = 0
           \<or> length (fst (snd (Execute parsedTpl (tt_funcs tga) [] (state, False, twa)))) =
             length (fst (snd (Execute parsedTpl (tt_funcs tgb) [] (state, False, twb))))
         \<longrightarrow> tt_totEvents tga = tt_totEvents tgb)"
      by (rule text_twice)
  qed
qed

text \<open>
  The theorem at two constructions from the custom template of the examples, in the worlds
  0 and 5, and at two constructions from the third text template in the worlds 0 and 2, where
  both draw the first zone.
\<close>

theorem totEvents_same_for_equal_sample_length_witness:
  "NewGeneratorWithCustomTemplate ex_bindField ''a{{.f}}b'' () [ex_field] 9 0 =
     (Ok (ex_customGen 0), 0)
   \<and> NewGeneratorWithCustomTemplate ex_bindField ''a{{.f}}b'' () [ex_field] 9 5 =
     (Ok (ex_customGen 0), 5)
   \<and> length (fst (snd (sampleEmitters (ct_emitters (ex_customGen 0)) [] 0))) =
       length (fst (snd (sampleEmitters (ct_emitters (ex_customGen 0)) [] 5)))
   \<and> ct_totEvents (ex_customGen 0) = ct_totEvents (ex_customGen 0)
   \<and> NewGeneratorWithTextTemplate ex_bindField ex_Parse ex_Intn ex_tpl_zone () [] 22 0 =
     (Ok (ex_zoneGen 2), 1)
   \<and> NewGeneratorWithTextTemplate ex_bindField ex_Parse ex_Intn ex_tpl_zone () [] 22 2 =
     (Ok (ex_zoneGen 2), 3)
   \<and> length (fst (snd (Execute (TAwsAZFromRegion ''us-west-1'' ex_zoneBranch)
                (tt_funcs (ex_zoneGen 2)) [] (NewGenState, False, 0)))) =
       length (fst (snd (Execute (TAwsAZFromRegion ''us-west-1'' ex_zoneBranch)
                (tt_funcs (ex_zoneGen 2)) [] (NewGenState, False, 2))))
   \<and> tt_totEvents (ex_zoneGen 2) = tt_totEvents (ex_zoneGen 2)"
proof -
  have two_mod_length: "(2 :: nat) mod Suc (Suc 0) = 0"
    by (simp add: eval_nat_numeral)
  have ca: "NewGeneratorWithCustomTemplate ex_bindField ''a{{.f}}b'' () [ex_field] 9 0 =
     (Ok (ex_customGen 0), 0)"
    and cb: "NewGeneratorWithCustomTemplate ex_bindField ''a{{.f}}b'' () [ex_field] 9 5 =
     (Ok (ex_customGen 0), 5)"
    by (simp_all add: NewGeneratorWithCustomTemplate_def parse_defs ex_defs ex_customGen_def
       calculateTotEventsWithCustomTemplate_def totEventsOfSize_def isolatedState_def
       NewGenState_def)
  have cl: "length (fst (snd (sampleEmitters (ct_emitters (ex_customGen 0)) [] 0))) =
       length (fst (snd (sampleEmitters (ct_emitters (ex_customGen 0)) [] 5)))"
    by (simp add: ex_customGen_def ex_emitFNotReturn_def)
  have ta: "NewGeneratorWithTextTemplate ex_bindField ex_Parse ex_Intn ex_tpl_zone () [] 22 0 =
     (Ok (ex_zoneGen 2), 1)"
    and tb: "NewGeneratorWithTextTemplate ex_bindField ex_Parse ex_Intn ex_tpl_zone () [] 22 2 =
     (Ok (ex_zoneGen 2), 3)"
    by (simp_all add: text_defs ex_defs ex_zoneGen_def awsAZFromRegion_def awsAZs_def
          two_mod_length)
  have tl: "length (fst (snd (Execute (TAwsAZFromRegion ''us-west-1'' ex_zoneBranch)
                (tt_funcs (ex_zoneGen 2)) [] (NewGenState, False, 0)))) =
       length (fst (snd (Execute (TAwsAZFromRegion ''us-west-1'' ex_zoneBranch)
                (tt_funcs (ex_zoneGen 2)) [] (NewGenState, False, 2))))"
    by (simp add: ex_zoneGen_def ex_funcs_def ex_Intn_def ex_zoneBranch_def awsAZFromRegion_def
          awsAZs_def two_mod_length)
  have f: "bindFieldsText ex_bindField () [] (Map.empty, NewGenState) =
      Inr (Map.empty, (NewGenState :: string GenState))"
    by simp
  have p: "ex_Parse ''estimate_tot_events'' ex_tpl_zone =
      Inr (TAwsAZFromRegion ''us-west-1'' ex_zoneBranch)"
    by (simp add: ex_Parse_def ex_tpl_zone_def ex_tpl_f_def ex_tpl_nosuch_def)
  note T = totEvents_same_for_equal_sample_length[where cbind = ex_bindField
      and template = "''a{{.f}}b''" and ccfg = "()" and cfields = "[ex_field]" and csize = 9
      and cwa = 0 and cga = "ex_customGen 0" and cwa' = 0
      and cwb = 5 and cgb = "ex_customGen 0" and cwb' = 5
      and tbind = ex_bindField and Parse = ex_Parse and Intn = ex_Intn and tpl = ex_tpl_zone
      and tcfg = "()" and tfields = "[]" and tsize = 22
      and twa = 0 and tga = "ex_zoneGen 2" and twa' = 1
      and twb = 2 and tgb = "ex_zoneGen 2" and twb' = 3
      and fieldMap = Map.empty and state = NewGenState
      and parsedTpl = "TAwsAZFromRegion ''us-west-1'' ex_zoneBranch"]
  from T[THEN conjunct1, THEN mp, OF conjI[OF ca cb]] cl
  have c: "ct_totEvents (ex_customGen 0) = ct_totEvents (ex_customGen 0)" by blast
  from T[THEN conjunct2, THEN mp, OF conjI[OF ta conjI[OF tb conjI[OF f p]]]] tl
  have t: "tt_totEvents (ex_zoneGen 2) = tt_totEvents (ex_zoneGen 2)" by blast
  from ca cb cl c ta tb tl t show ?thesis by blast
qed

end
